theory Spec2Isabelle
  imports
    Main
    "HOL-Library.Sublist"
    "HOL-Library.Product_Lexorder"
    "HOL-Library.AList"
begin

section \<open>The booking agent of task 5\<close>

text \<open>
  A shallow embedding of the class \<open>BookingAgent\<close> of \<^verbatim>\<open>src/Agentic ai/task 5.py\<close>:
  slot generation, intent parsing, the appointment ledger and the booking workflow.
  The widget code below the class only calls \<open>process_booking_request\<close> and
  \<open>get_booking_stats\<close> on a fresh agent and prints the result;
  \<open>get_booking_stats\<close> only counts what the state holds and is left out.

  Modelling decisions:
  \<^item> The system clock. The operations are given twice. In the first form every
    \<open>datetime.now()\<close> of one call reads the same snapshot, which is the parameter
    \<open>now\<close>; the claims about a fixed current time are stated on this form. In the
    second form (the functions named \<open>_clk\<close>) every \<open>datetime.now()\<close> is a separate
    reading of a clock, and the two forms are proved to agree when the clock stands still.
  \<^item> A \<open>datetime\<close> is its proleptic Gregorian day number (Python's \<open>toordinal()\<close>)
    and its time of day. Python compares naive datetimes field by field, which is the
    lexicographic order on (day number, hour, minute, second, microsecond).
    Day numbers are unbounded in \<open>add_days\<close>; the \<open>OverflowError\<close> of Python past
    the year 9999 is modelled for the parser, by the functions named \<open>_checked\<close>.
  \<^item> \<open>strftime("%Y-%m-%d")\<close> renders the calendar date and nothing else, and two
    different dates never render alike. The model keeps the day number in place of the
    rendered string; such a string is never empty, so it is always truthy.
  \<^item> Strings are byte strings; \<open>lower()\<close> folds the ASCII letters A to Z.
  \<^item> Dictionaries are association lists in insertion order, as Python iterates them.
  \<^item> The formatted message texts of the result dictionaries are left out; the status and
    the data fields are kept.
\<close>

subsection \<open>Dates and times\<close>

datatype datetime =
  Datetime (ordinal: int) (hour: nat) (minute: nat) (second: nat) (microsecond: nat)

definition dt_key :: "datetime \<Rightarrow> int \<times> nat \<times> nat \<times> nat \<times> nat" where
  "dt_key d = (ordinal d, hour d, minute d, second d, microsecond d)"

instantiation datetime :: linorder
begin

definition less_eq_datetime :: "datetime \<Rightarrow> datetime \<Rightarrow> bool" where
  "less_eq_datetime a b \<longleftrightarrow> dt_key a \<le> dt_key b"

definition less_datetime :: "datetime \<Rightarrow> datetime \<Rightarrow> bool" where
  "less_datetime a b \<longleftrightarrow> dt_key a < dt_key b"

instance
proof
  fix x y z :: datetime
  show "(x < y) = (x \<le> y \<and> \<not> y \<le> x)"
    unfolding less_eq_datetime_def less_datetime_def by (rule less_le_not_le)
  show "x \<le> x"
    unfolding less_eq_datetime_def by simp
  show "x \<le> y \<Longrightarrow> y \<le> z \<Longrightarrow> x \<le> z"
    unfolding less_eq_datetime_def by (rule order_trans)
  show "x \<le> y \<Longrightarrow> y \<le> x \<Longrightarrow> x = y"
  proof -
    assume "x \<le> y" and "y \<le> x"
    then have "dt_key x = dt_key y"
      unfolding less_eq_datetime_def by (rule order_antisym)
    then show "x = y"
      by (cases x, cases y) (simp add: dt_key_def)
  qed
  show "x \<le> y \<or> y \<le> x"
    unfolding less_eq_datetime_def by (rule linear)
qed

end

text \<open>\<open>date.weekday()\<close>: Monday is 0 and Sunday is 6; day number 1 is a Monday.\<close>

definition weekday :: "datetime \<Rightarrow> nat" where
  "weekday d = nat ((ordinal d + 6) mod 7)"

text \<open>\<open>d.replace(hour=h, minute=m, second=s, microsecond=us)\<close> and \<open>d.replace(hour=h, minute=m)\<close>.\<close>

definition replace_hmsu :: "datetime \<Rightarrow> nat \<Rightarrow> nat \<Rightarrow> nat \<Rightarrow> nat \<Rightarrow> datetime" where
  "replace_hmsu d h m s us = Datetime (ordinal d) h m s us"

definition replace_hm :: "datetime \<Rightarrow> nat \<Rightarrow> nat \<Rightarrow> datetime" where
  "replace_hm d h m = Datetime (ordinal d) h m (second d) (microsecond d)"

text \<open>\<open>d + timedelta(days=n)\<close> and \<open>d + timedelta(hours=n)\<close>.\<close>

definition add_days :: "datetime \<Rightarrow> int \<Rightarrow> datetime" where
  "add_days d n = Datetime (ordinal d + n) (hour d) (minute d) (second d) (microsecond d)"

definition add_hours :: "datetime \<Rightarrow> nat \<Rightarrow> datetime" where
  "add_hours d n =
     Datetime (ordinal d + int ((hour d + n) div 24)) ((hour d + n) mod 24)
       (minute d) (second d) (microsecond d)"

text \<open>The day number stands for the string that \<open>strftime("%Y-%m-%d")\<close> returns.\<close>

type_synonym date_str = int

definition strftime_date :: "datetime \<Rightarrow> date_str" where
  "strftime_date d = ordinal d"


subsection \<open>Slot generation\<close>

text \<open>
  The two inner loops of \<open>_generate_weekly_slots\<close> for one day: hours 9 to 16, minutes
  0 and 30, each slot kept when it is later than one hour from now.
\<close>

definition day_slots :: "datetime \<Rightarrow> datetime \<Rightarrow> datetime list" where
  "day_slots now current_date =
     concat (map (\<lambda>h.
       concat (map (\<lambda>m.
         let slot_time = replace_hm current_date h m
         in if slot_time > add_hours now 1 then [slot_time] else [])
       [0, 30]))
     [9..<17])"

definition generate_weekly_slots :: "datetime \<Rightarrow> datetime list" where
  "generate_weekly_slots now =
     (let start_date = replace_hmsu now 9 0 0 0
      in sort (concat (map (\<lambda>day.
           let current_date = add_days start_date (int day)
           in if weekday current_date \<ge> 5 then [] else day_slots now current_date)
         [0..<7])))"

subsection \<open>Strings\<close>

text \<open>\<open>str.lower()\<close> on ASCII text, and \<open>str.split()\<close> on runs of ASCII whitespace.
  The substring test \<open>x in s\<close> of Python is \<^const>\<open>sublist\<close>.\<close>

definition lower_char :: "char \<Rightarrow> char" where
  "lower_char c =
     (let n = of_char c :: nat in if 65 \<le> n \<and> n \<le> 90 then char_of (n + 32) else c)"

definition lower :: "string \<Rightarrow> string" where
  "lower s = map lower_char s"

definition is_space :: "char \<Rightarrow> bool" where
  "is_space c = (let n = of_char c :: nat in (9 \<le> n \<and> n \<le> 13) \<or> (28 \<le> n \<and> n \<le> 32))"

fun split_acc :: "string \<Rightarrow> string \<Rightarrow> string list" where
  "split_acc cur [] = (if cur = [] then [] else [cur])"
| "split_acc cur (c # cs) =
     (if is_space c then (if cur = [] then split_acc [] cs else cur # split_acc [] cs)
      else split_acc (cur @ [c]) cs)"

definition split :: "string \<Rightarrow> string list" where
  "split s = split_acc [] s"

text \<open>The decimal digits of a number, and the format \<open>f"apt_{n:04d}"\<close>.\<close>

fun str_nat :: "nat \<Rightarrow> string" where
  "str_nat n =
     (if n < 10 then [char_of (48 + n)] else str_nat (n div 10) @ [char_of (48 + n mod 10)])"

declare str_nat.simps [simp del]

definition apt_id :: "nat \<Rightarrow> string" where
  "apt_id n = (let s = str_nat n in ''apt_'' @ replicate (4 - length s) (CHR ''0'') @ s)"

subsection \<open>The service catalog\<close>

text \<open>\<open>self.services\<close> is assigned once in \<open>__init__\<close> and never changed.\<close>

record service_info =
  duration :: nat
  price :: nat
  type :: string

definition services :: "(string \<times> service_info) list" where
  "services =
     [(''doctor'', \<lparr>duration = 30, price = 100, type = ''medical''\<rparr>),
      (''dentist'', \<lparr>duration = 45, price = 150, type = ''medical''\<rparr>),
      (''therapy'', \<lparr>duration = 60, price = 120, type = ''wellness''\<rparr>),
      (''consultation'', \<lparr>duration = 30, price = 80, type = ''professional''\<rparr>),
      (''massage'', \<lparr>duration = 60, price = 90, type = ''wellness''\<rparr>),
      (''checkup'', \<lparr>duration = 20, price = 60, type = ''medical''\<rparr>)]"

subsection \<open>Intent parsing\<close>

record intent =
  service :: "string option"
  preferred_time :: "string option"
  date_preference :: "date_str option"
  urgency :: string
  certainty :: string
  user_sentiment :: string

definition time_patterns :: "(string \<times> string) list" where
  "time_patterns =
     [(''morning'', ''09:00-12:00''),
      (''afternoon'', ''12:00-17:00''),
      (''evening'', ''17:00-20:00''),
      (''lunch'', ''12:00-13:00'')]"

definition next_weekday :: "datetime \<Rightarrow> int \<Rightarrow> date_str" where
  "next_weekday now wd =
     (let today = now;
          days_ahead = wd - int (weekday today);
          days_ahead = (if days_ahead \<le> 0 then days_ahead + 7 else days_ahead)
      in strftime_date (add_days today days_ahead))"

definition date_patterns :: "datetime \<Rightarrow> (string \<times> date_str) list" where
  "date_patterns now =
     [(''tomorrow'', strftime_date (add_days now 1)),
      (''monday'', next_weekday now 0),
      (''tuesday'', next_weekday now 1),
      (''wednesday'', next_weekday now 2),
      (''thursday'', next_weekday now 3),
      (''friday'', next_weekday now 4),
      (''next week'', strftime_date (add_days now 7))]"

definition urgency_indicators :: "string list" where
  "urgency_indicators = [''urgent'', ''asap'', ''emergency'', ''quick'', ''soon'']"

definition positive_indicators :: "string list" where
  "positive_indicators = [''please'', ''thank'', ''appreciate'', ''would like'']"

text \<open>
  The loops over \<open>time_patterns.items()\<close> and \<open>date_patterns.items()\<close>: every pattern
  found in the message overwrites the value, so the last one in table order stays.
\<close>

fun scan_patterns :: "string \<Rightarrow> (string \<times> 'v) list \<Rightarrow> 'v option \<Rightarrow> 'v option" where
  "scan_patterns message [] cur = cur"
| "scan_patterns message ((pattern, v) # rest) cur =
     scan_patterns message rest (if sublist pattern message then Some v else cur)"

text \<open>\<open>not x\<close> for a value that is \<open>None\<close> or a string.\<close>

definition falsy :: "string option \<Rightarrow> bool" where
  "falsy x \<longleftrightarrow> x = None \<or> x = Some []"

text \<open>
  The body of \<open>parse_booking_intent\<close>, given the dictionary \<open>date_patterns\<close> that
  its middle part builds from the clock.
\<close>

definition parse_with_dates :: "(string \<times> date_str) list \<Rightarrow> string \<Rightarrow> intent" where
  "parse_with_dates dates user_message =
     (let message_lower = lower user_message;
          direct = find (\<lambda>name. sublist name message_lower) (map fst services);
          found =
            (if falsy direct
             then (case find (\<lambda>name. list_ex (\<lambda>word. sublist word message_lower) (split name))
                          (map fst services) of
                     None \<Rightarrow> direct
                   | Some name \<Rightarrow> Some name)
             else direct)
      in \<lparr>intent.service = found,
          preferred_time = scan_patterns message_lower time_patterns None,
          date_preference = scan_patterns message_lower dates None,
          urgency =
            (if list_ex (\<lambda>word. sublist word message_lower) urgency_indicators
             then ''high'' else ''normal''),
          certainty = ''high'',
          user_sentiment =
            (if list_ex (\<lambda>word. sublist word message_lower) positive_indicators
             then ''positive'' else ''neutral'')\<rparr>)"

definition parse_booking_intent :: "datetime \<Rightarrow> string \<Rightarrow> intent" where
  "parse_booking_intent now user_message = parse_with_dates (date_patterns now) user_message"

subsection \<open>Appointments and the agent\<close>

datatype booking_status = PENDING | CONFIRMED | CANCELLED | COMPLETED

record appointment =
  appointment_id :: string
  user_id :: string
  service :: string
  scheduled_time :: datetime
  duration :: nat
  status :: booking_status
  created_at :: datetime
  confirmed_at :: "datetime option"

text \<open>\<open>Appointment.__init__\<close> and \<open>Appointment.confirm\<close>.\<close>

definition new_appointment ::
  "datetime \<Rightarrow> string \<Rightarrow> string \<Rightarrow> string \<Rightarrow> datetime \<Rightarrow> nat \<Rightarrow> appointment" where
  "new_appointment now aid uid svc slot dur =
     \<lparr>appointment_id = aid, user_id = uid, service = svc, scheduled_time = slot,
      duration = dur, status = PENDING, created_at = now, confirmed_at = None\<rparr>"

definition confirm :: "datetime \<Rightarrow> appointment \<Rightarrow> appointment" where
  "confirm now a = a\<lparr>status := CONFIRMED, confirmed_at := Some now\<rparr>"

text \<open>
  The mutable attributes of \<open>BookingAgent\<close>. \<open>self.users\<close> is never read or written
  after \<open>__init__\<close> and is left out.
\<close>

record agent =
  appointments :: "(string \<times> appointment) list"
  available_slots :: "datetime list"
  next_appointment_id :: nat

definition init_agent :: "datetime \<Rightarrow> agent" where
  "init_agent now =
     \<lparr>appointments = [], available_slots = generate_weekly_slots now, next_appointment_id = 1\<rparr>"

text \<open>
  \<open>KeyError\<close> is what \<open>self.services[service]\<close> raises on a missing key, and
  \<open>OverflowError\<close> is what \<open>datetime + timedelta\<close> raises when the sum is not a date
  of the years 1 to 9999. \<open>UnknownService\<close> and \<open>SlotConflict\<close> are the error kinds
  named by the specification; no path of the source constructs them.
\<close>

datatype error = KeyError string | OverflowError | UnknownService string | SlotConflict datetime

definition is_slot_booked :: "agent \<Rightarrow> datetime \<Rightarrow> bool" where
  "is_slot_booked a slot =
     list_ex (\<lambda>appointment. scheduled_time appointment = slot \<and> status appointment \<noteq> CANCELLED)
       (map snd (appointments a))"

text \<open>
  \<open>find_available_slots\<close>: the loop that collects the list \<open>available\<close>, then
  \<open>sorted(available)[:6]\<close>. A service dictionary of the catalog is never empty, so
  \<open>not service_info\<close> holds for a missing service only.
\<close>

definition collect_available :: "agent \<Rightarrow> date_str option \<Rightarrow> datetime list" where
  "collect_available a date_pref =
     filter (\<lambda>slot.
       \<not> is_slot_booked a slot \<and>
       (case date_pref of None \<Rightarrow> True | Some d \<Rightarrow> strftime_date slot = d))
     (available_slots a)"

definition find_available_slots :: "agent \<Rightarrow> string \<Rightarrow> date_str option \<Rightarrow> datetime list" where
  "find_available_slots a svc date_pref =
     (case map_of services svc of
        None \<Rightarrow> []
      | Some info \<Rightarrow> take 6 (sort (collect_available a date_pref)))"

definition remove_slot :: "agent \<Rightarrow> datetime \<Rightarrow> agent" where
  "remove_slot a slot = a\<lparr>available_slots := filter (\<lambda>s. s \<noteq> slot) (available_slots a)\<rparr>"

text \<open>
  \<open>create_appointment\<close> increments the counter before it looks the service up, so the
  agent that a \<open>KeyError\<close> leaves behind has the counter advanced.
\<close>

definition create_appointment ::
  "datetime \<Rightarrow> agent \<Rightarrow> string \<Rightarrow> string \<Rightarrow> datetime \<Rightarrow> (error + appointment) \<times> agent" where
  "create_appointment now a uid svc slot =
     (let aid = apt_id (next_appointment_id a);
          a1 = a\<lparr>next_appointment_id := next_appointment_id a + 1\<rparr>
      in case map_of services svc of
           None \<Rightarrow> (Inl (KeyError svc), a1)
         | Some info \<Rightarrow>
             (let appointment =
                    confirm now (new_appointment now aid uid svc slot (service_info.duration info));
                  a2 = a1\<lparr>appointments := AList.update aid appointment (appointments a1)\<rparr>
              in (Inr appointment, remove_slot a2 slot)))"

subsection \<open>The booking workflow\<close>

text \<open>
  The result dictionary of \<open>process_booking_request\<close>, by its \<open>status\<close> key:
  \<open>clarification_needed\<close> with \<open>available_services\<close> and \<open>suggestions\<close>;
  \<open>no_slots\<close> with the service and \<open>alternative_services\<close>;
  \<open>success\<close> with the appointment, the price and the service type.
\<close>

datatype outcome =
  Clarification_needed "string list" "string list"
| No_slots string "string list"
| Success appointment nat string

definition process_booking_request ::
  "datetime \<Rightarrow> agent \<Rightarrow> string \<Rightarrow> string \<Rightarrow> (error + outcome) \<times> agent" where
  "process_booking_request now a uid user_message =
     (let parsed = parse_booking_intent now user_message
      in case intent.service parsed of
           None \<Rightarrow>
             (Inr (Clarification_needed (map fst services)
                [''doctor'', ''dentist'', ''therapy'', ''massage'', ''consultation'']), a)
         | Some svc \<Rightarrow>
             if svc = [] then
               (Inr (Clarification_needed (map fst services)
                  [''doctor'', ''dentist'', ''therapy'', ''massage'', ''consultation'']), a)
             else
               (case find_available_slots a svc (date_preference parsed) of
                  [] \<Rightarrow> (Inr (No_slots svc (filter (\<lambda>s. s \<noteq> svc) (map fst services))), a)
                | selected_slot # _ \<Rightarrow>
                    (case create_appointment now a uid svc selected_slot of
                       (Inl e, a') \<Rightarrow> (Inl e, a')
                     | (Inr appointment, a') \<Rightarrow>
                         (case map_of services svc of
                            None \<Rightarrow> (Inl (KeyError svc), a')
                          | Some info \<Rightarrow>
                              (Inr (Success appointment (price info) (type info)), a')))))"

subsection \<open>The parser within Python's range of dates\<close>

text \<open>
  A Python date has a day number from 1 to 3652059, which is 9999-12-31, and
  \<open>datetime + timedelta(days=n)\<close> raises \<open>OverflowError\<close> when the sum leaves this
  range. \<open>parse_booking_intent\<close> builds the dictionary \<open>date_patterns\<close> entry by entry
  whatever the message is, so a sum that overflows there ends the call. The functions
  below are \<open>_next_weekday\<close>, the dictionary and the parser with this check;
  \<^const>\<open>parse_booking_intent\<close> is what they compute when no sum overflows.
\<close>

definition max_ordinal :: int where
  "max_ordinal = 3652059"

definition add_days_checked :: "datetime \<Rightarrow> int \<Rightarrow> error + datetime" where
  "add_days_checked d n =
     (if 1 \<le> ordinal d + n \<and> ordinal d + n \<le> max_ordinal then Inr (add_days d n)
      else Inl OverflowError)"

definition bind_error :: "error + 'a \<Rightarrow> ('a \<Rightarrow> error + 'b) \<Rightarrow> error + 'b" where
  "bind_error r f = (case r of Inl e \<Rightarrow> Inl e | Inr x \<Rightarrow> f x)"

definition next_weekday_checked :: "datetime \<Rightarrow> int \<Rightarrow> error + date_str" where
  "next_weekday_checked now wd =
     (let today = now;
          days_ahead = wd - int (weekday today);
          days_ahead = (if days_ahead \<le> 0 then days_ahead + 7 else days_ahead)
      in bind_error (add_days_checked today days_ahead) (\<lambda>d. Inr (strftime_date d)))"

definition date_patterns_checked :: "datetime \<Rightarrow> error + (string \<times> date_str) list" where
  "date_patterns_checked now =
     bind_error (add_days_checked now 1) (\<lambda>tomorrow.
     bind_error (next_weekday_checked now 0) (\<lambda>mon.
     bind_error (next_weekday_checked now 1) (\<lambda>tue.
     bind_error (next_weekday_checked now 2) (\<lambda>wed.
     bind_error (next_weekday_checked now 3) (\<lambda>thu.
     bind_error (next_weekday_checked now 4) (\<lambda>fri.
     bind_error (add_days_checked now 7) (\<lambda>next_week.
       Inr [(''tomorrow'', strftime_date tomorrow),
            (''monday'', mon),
            (''tuesday'', tue),
            (''wednesday'', wed),
            (''thursday'', thu),
            (''friday'', fri),
            (''next week'', strftime_date next_week)])))))))"

definition parse_booking_intent_checked :: "datetime \<Rightarrow> string \<Rightarrow> error + intent" where
  "parse_booking_intent_checked now user_message =
     bind_error (date_patterns_checked now) (\<lambda>dates. Inr (parse_with_dates dates user_message))"

subsection \<open>Reading the clock\<close>

text \<open>
  The operations once more, with the clock as the source has it: a call of
  \<open>datetime.now()\<close> is a reading, the \<open>n\<close>-th reading of a run returns \<open>clk n\<close>, and
  an operation takes the number of readings made so far and returns the new number with
  its result. \<open>_generate_weekly_slots\<close> reads the clock once for \<open>start_date\<close> and once
  in every pass of the innermost loop; \<open>parse_booking_intent\<close> reads it seven times,
  once for each entry of \<open>date_patterns\<close>; \<open>Appointment.__init__\<close> and \<open>confirm\<close>
  read it once each.
\<close>

type_synonym clock = "nat \<Rightarrow> datetime"

definition day_slots_clk ::
  "clock \<Rightarrow> datetime \<Rightarrow> datetime list \<times> nat \<Rightarrow> datetime list \<times> nat" where
  "day_slots_clk clk current_date =
     fold (\<lambda>h.
       fold (\<lambda>m (slots, t).
         let slot_time = replace_hm current_date h m
         in (if slot_time > add_hours (clk t) 1 then slots @ [slot_time] else slots, t + 1))
       [0, 30])
     [9..<17]"

definition generate_weekly_slots_clk :: "clock \<Rightarrow> nat \<Rightarrow> datetime list \<times> nat" where
  "generate_weekly_slots_clk clk t0 =
     (let start_date = replace_hmsu (clk t0) 9 0 0 0;
          st = fold (\<lambda>day st.
                 let current_date = add_days start_date (int day)
                 in if weekday current_date \<ge> 5 then st else day_slots_clk clk current_date st)
               [0..<7] ([], t0 + 1)
      in (sort (fst st), snd st))"

definition date_patterns_clk :: "clock \<Rightarrow> nat \<Rightarrow> (string \<times> date_str) list" where
  "date_patterns_clk clk t =
     [(''tomorrow'', strftime_date (add_days (clk t) 1)),
      (''monday'', next_weekday (clk (t + 1)) 0),
      (''tuesday'', next_weekday (clk (t + 2)) 1),
      (''wednesday'', next_weekday (clk (t + 3)) 2),
      (''thursday'', next_weekday (clk (t + 4)) 3),
      (''friday'', next_weekday (clk (t + 5)) 4),
      (''next week'', strftime_date (add_days (clk (t + 6)) 7))]"

definition parse_booking_intent_clk :: "clock \<Rightarrow> nat \<Rightarrow> string \<Rightarrow> intent \<times> nat" where
  "parse_booking_intent_clk clk t user_message =
     (parse_with_dates (date_patterns_clk clk t) user_message, t + 7)"

definition init_agent_clk :: "clock \<Rightarrow> nat \<Rightarrow> agent \<times> nat" where
  "init_agent_clk clk t =
     (let r = generate_weekly_slots_clk clk t
      in (\<lparr>appointments = [], available_slots = fst r, next_appointment_id = 1\<rparr>, snd r))"

definition create_appointment_clk ::
  "clock \<Rightarrow> nat \<Rightarrow> agent \<Rightarrow> string \<Rightarrow> string \<Rightarrow> datetime \<Rightarrow>
     ((error + appointment) \<times> agent) \<times> nat" where
  "create_appointment_clk clk t a uid svc slot =
     (let aid = apt_id (next_appointment_id a);
          a1 = a\<lparr>next_appointment_id := next_appointment_id a + 1\<rparr>
      in case map_of services svc of
           None \<Rightarrow> ((Inl (KeyError svc), a1), t)
         | Some info \<Rightarrow>
             (let appointment =
                    confirm (clk (t + 1))
                      (new_appointment (clk t) aid uid svc slot (service_info.duration info));
                  a2 = a1\<lparr>appointments := AList.update aid appointment (appointments a1)\<rparr>
              in ((Inr appointment, remove_slot a2 slot), t + 2)))"

definition process_booking_request_clk ::
  "clock \<Rightarrow> nat \<Rightarrow> agent \<Rightarrow> string \<Rightarrow> string \<Rightarrow> ((error + outcome) \<times> agent) \<times> nat" where
  "process_booking_request_clk clk t a uid user_message =
     (let p = parse_booking_intent_clk clk t user_message;
          parsed = fst p;
          t1 = snd p
      in case intent.service parsed of
           None \<Rightarrow>
             ((Inr (Clarification_needed (map fst services)
                [''doctor'', ''dentist'', ''therapy'', ''massage'', ''consultation'']), a), t1)
         | Some svc \<Rightarrow>
             if svc = [] then
               ((Inr (Clarification_needed (map fst services)
                  [''doctor'', ''dentist'', ''therapy'', ''massage'', ''consultation'']), a), t1)
             else
               (case find_available_slots a svc (date_preference parsed) of
                  [] \<Rightarrow> ((Inr (No_slots svc (filter (\<lambda>s. s \<noteq> svc) (map fst services))), a), t1)
                | selected_slot # _ \<Rightarrow>
                    (case create_appointment_clk clk t1 a uid svc selected_slot of
                       ((Inl e, a'), t2) \<Rightarrow> ((Inl e, a'), t2)
                     | ((Inr appointment, a'), t2) \<Rightarrow>
                         (case map_of services svc of
                            None \<Rightarrow> ((Inl (KeyError svc), a'), t2)
                          | Some info \<Rightarrow>
                              ((Inr (Success appointment (price info) (type info)), a'), t2)))))"

text \<open>
  The states that calls of \<open>process_booking_request\<close> reach from a fresh agent, each
  call and the constructor reading the clock as it stands then.
\<close>

inductive reachable :: "agent \<Rightarrow> bool" where
  fresh: "reachable (fst (init_agent_clk clk t))"
| request:
    "reachable a \<Longrightarrow> reachable (snd (fst (process_booking_request_clk clk t a uid user_message)))"

subsection \<open>Example inputs\<close>

text \<open>
  Wednesday 2026-11-04, Friday 2026-11-06 and Tuesday 9999-12-28, all at 10:15:03.000007,
  and the default request text and user of the notebook's form.
\<close>

definition last_week_of_9999 :: datetime where
  "last_week_of_9999 = Datetime 3652056 10 15 3 7"

definition wednesday :: datetime where
  "wednesday = Datetime 739924 10 15 3 7"

definition friday :: datetime where
  "friday = Datetime 739926 10 15 3 7"

definition default_request :: string where
  "default_request = ''I need a dentist appointment tomorrow afternoon''"

definition default_user :: string where
  "default_user = ''dev ambekar''"

section \<open>Properties\<close>

subsection \<open>Slot generation\<close>

lemma set_nested_loops:
  "set (concat (map (\<lambda>h. concat (map (\<lambda>m. if P h m then [f h m] else []) ms)) hs)) =
     {s. \<exists>h m. h \<in> set hs \<and> m \<in> set ms \<and> P h m \<and> s = f h m}"
  by auto

lemma set_day_slots:
  "set (day_slots now cd) =
     {s. \<exists>h m. h \<in> {9..<17} \<and> m \<in> {0, 30} \<and> add_hours now 1 < replace_hm cd h m \<and> s = replace_hm cd h m}"
proof -
  have "set (day_slots now cd) =
     {s. \<exists>h m. h \<in> set [9..<17] \<and> m \<in> set [0, 30] \<and> add_hours now 1 < replace_hm cd h m \<and> s = replace_hm cd h m}"
    unfolding day_slots_def Let_def by (rule set_nested_loops)
  then show ?thesis
    by (simp only: set_upt list.set)
qed

lemma set_concat_map_if:
  "set (concat (map (\<lambda>x. if P x then [] else g x) xs)) =
     {s. \<exists>x. x \<in> set xs \<and> \<not> P x \<and> s \<in> set (g x)}"
  by auto

lemma set_generate:
  "set (generate_weekly_slots now) =
     {s. \<exists>day. day \<in> {0..<7} \<and> \<not> 5 \<le> weekday (add_days (replace_hmsu now 9 0 0 0) (int day)) \<and>
          s \<in> set (day_slots now (add_days (replace_hmsu now 9 0 0 0) (int day)))}"
proof -
  have "set (generate_weekly_slots now) =
     {s. \<exists>day. day \<in> set [0..<7] \<and> \<not> 5 \<le> weekday (add_days (replace_hmsu now 9 0 0 0) (int day)) \<and>
          s \<in> set (day_slots now (add_days (replace_hmsu now 9 0 0 0) (int day)))}"
    unfolding generate_weekly_slots_def Let_def set_sort by (rule set_concat_map_if)
  then show ?thesis
    by (simp only: set_upt)
qed

lemma distinct_concat_map_key:
  assumes "distinct xs"
    and "\<And>x. x \<in> set xs \<Longrightarrow> distinct (g x)"
    and "\<And>x y. x \<in> set xs \<Longrightarrow> y \<in> set (g x) \<Longrightarrow> k y = x"
  shows "distinct (concat (map g xs))"
  using assms
proof (induction xs)
  case Nil
  then show ?case by simp
next
  case (Cons a xs)
  have "set (g a) \<inter> set (concat (map g xs)) = {}"
  proof (rule ccontr)
    assume "set (g a) \<inter> set (concat (map g xs)) \<noteq> {}"
    then obtain y x where y: "y \<in> set (g a)" and x: "x \<in> set xs" and yx: "y \<in> set (g x)"
      by auto
    from Cons.prems(3) [of a y] y have "k y = a" by simp
    moreover from Cons.prems(3) [of x y] x yx have "k y = x" by simp
    ultimately have "a \<in> set xs" using x by simp
    with Cons.prems(1) show False by simp
  qed
  moreover have "distinct (concat (map g xs))"
    using Cons by simp
  moreover have "distinct (g a)"
    using Cons.prems(2) by simp
  ultimately show ?case by simp
qed

lemma distinct_nested_loops:
  assumes "distinct hs" and "distinct ms"
    and "\<And>h m. kh (f h m) = h" and "\<And>h m. km (f h m) = m"
  shows "distinct (concat (map (\<lambda>h. concat (map (\<lambda>m. if P h m then [f h m] else []) ms)) hs))"
proof (rule distinct_concat_map_key [where k = kh])
  show "distinct hs" by fact
next
  fix h
  show "distinct (concat (map (\<lambda>m. if P h m then [f h m] else []) ms))"
    by (rule distinct_concat_map_key [where k = km]) (use assms in \<open>auto split: if_splits\<close>)
next
  fix h y
  assume "y \<in> set (concat (map (\<lambda>m. if P h m then [f h m] else []) ms))"
  then show "kh y = h"
    using assms(3) by (auto split: if_splits)
qed

lemma distinct_day_slots: "distinct (day_slots now cd)"
  unfolding day_slots_def Let_def
  by (rule distinct_nested_loops [where kh = hour and km = minute])
    (simp_all only: distinct_upt replace_hm_def datetime.sel, simp)

lemma ordinal_day_slots: "s \<in> set (day_slots now cd) \<Longrightarrow> ordinal s = ordinal cd"
  unfolding set_day_slots by (auto simp: replace_hm_def)

lemma distinct_generate_weekly_slots: "distinct (generate_weekly_slots now)"
  unfolding generate_weekly_slots_def Let_def distinct_sort
proof (rule distinct_concat_map_key [where k = "\<lambda>s. nat (ordinal s - ordinal now)"])
  show "distinct [0..<7]" by (rule distinct_upt)
next
  fix day
  show "distinct (if 5 \<le> weekday (add_days (replace_hmsu now 9 0 0 0) (int day)) then []
      else day_slots now (add_days (replace_hmsu now 9 0 0 0) (int day)))"
    by (simp add: distinct_day_slots)
next
  fix day y
  assume "y \<in> set (if 5 \<le> weekday (add_days (replace_hmsu now 9 0 0 0) (int day)) then []
      else day_slots now (add_days (replace_hmsu now 9 0 0 0) (int day)))"
  then have "ordinal y = ordinal (add_days (replace_hmsu now 9 0 0 0) (int day))"
    by (auto dest: ordinal_day_slots split: if_splits)
  then show "nat (ordinal y - ordinal now) = day"
    by (simp add: add_days_def replace_hmsu_def)
qed

lemma slot_in_generate_weekly_slots:
  assumes "s \<in> set (generate_weekly_slots now)"
  shows "weekday s < 5" and "9 \<le> hour s" and "hour s < 17" and "minute s = 0 \<or> minute s = 30"
    and "second s = 0" and "microsecond s = 0" and "add_hours now 1 < s"
    and "ordinal now \<le> ordinal s" and "ordinal s < ordinal now + 7"
proof -
  from assms obtain day h m where day: "day < 7"
    and wd: "\<not> 5 \<le> weekday (add_days (replace_hmsu now 9 0 0 0) (int day))"
    and h: "9 \<le> h" "h < 17" and m: "m = 0 \<or> m = 30"
    and late: "add_hours now 1 < s"
    and s: "s = replace_hm (add_days (replace_hmsu now 9 0 0 0) (int day)) h m"
    unfolding set_generate set_day_slots by auto
  have s': "s = Datetime (ordinal now + int day) h m 0 0"
    unfolding s by (simp add: replace_hm_def add_days_def replace_hmsu_def)
  from wd show "weekday s < 5"
    by (simp add: s' weekday_def add_days_def replace_hmsu_def)
  from h m late day show "9 \<le> hour s" "hour s < 17" "minute s = 0 \<or> minute s = 30"
    "second s = 0" "microsecond s = 0" "add_hours now 1 < s"
    "ordinal now \<le> ordinal s" "ordinal s < ordinal now + 7"
    by (simp_all add: s')
qed

text \<open>
  C3. For a fixed current time, every slot that \<open>_generate_weekly_slots\<close> returns
  falls on Monday to Friday, starts between 09:00 and 16:30 on the hour or the half hour
  (seconds and microseconds zero), and is strictly later than one hour from now; the
  returned list is sorted ascending and holds no slot twice.
\<close>

theorem generate_weekly_slots_postcondition:
  "(\<forall>s \<in> set (generate_weekly_slots now).
      weekday s < 5 \<and> 9 \<le> hour s \<and> hour s < 17 \<and> (minute s = 0 \<or> minute s = 30) \<and>
      second s = 0 \<and> microsecond s = 0 \<and> add_hours now 1 < s) \<and>
   sorted (generate_weekly_slots now) \<and> distinct (generate_weekly_slots now)"
proof (intro conjI ballI)
  show "sorted (generate_weekly_slots now)"
    unfolding generate_weekly_slots_def Let_def by (rule sorted_sort)
  show "distinct (generate_weekly_slots now)"
    by (rule distinct_generate_weekly_slots)
qed (auto dest: slot_in_generate_weekly_slots)

lemma slot_mem_generate_weekly_slots:
  assumes "day < 7" and "weekday (Datetime (ordinal now + int day) 9 0 0 0) < 5"
    and "9 \<le> h" and "h < 17" and "m = 0 \<or> m = 30"
    and "add_hours now 1 < Datetime (ordinal now + int day) h m 0 0"
  shows "Datetime (ordinal now + int day) h m 0 0 \<in> set (generate_weekly_slots now)"
proof -
  have "Datetime (ordinal now + int day) h m 0 0 =
      replace_hm (add_days (replace_hmsu now 9 0 0 0) (int day)) h m"
    by (simp add: replace_hm_def add_days_def replace_hmsu_def)
  moreover have "\<not> 5 \<le> weekday (add_days (replace_hmsu now 9 0 0 0) (int day))"
    using assms(2) by (simp add: weekday_def add_days_def replace_hmsu_def)
  ultimately show ?thesis
    unfolding set_generate set_day_slots using assms by auto
qed

text \<open>Wednesday 2026-11-04, after 10:15: Thursday 09:00 is one of the slots.\<close>

theorem generate_weekly_slots_postcondition_witness:
  "Datetime 739925 9 0 0 0 \<in> set (generate_weekly_slots (Datetime 739924 10 15 3 7)) \<and>
   weekday (Datetime 739925 9 0 0 0) < 5 \<and>
   add_hours (Datetime 739924 10 15 3 7) 1 < Datetime 739925 9 0 0 0 \<and>
   sorted (generate_weekly_slots (Datetime 739924 10 15 3 7))"
proof -
  have "Datetime (ordinal (Datetime 739924 10 15 3 7) + int 1) 9 0 0 0
      \<in> set (generate_weekly_slots (Datetime 739924 10 15 3 7))"
    by (rule slot_mem_generate_weekly_slots)
      (simp_all add: weekday_def add_hours_def less_datetime_def dt_key_def)
  then have mem: "Datetime 739925 9 0 0 0 \<in> set (generate_weekly_slots (Datetime 739924 10 15 3 7))"
    by simp
  with generate_weekly_slots_postcondition [of "Datetime 739924 10 15 3 7"]
  show ?thesis by blast
qed

subsection \<open>Intent parsing\<close>

lemma split_service_name: "\<forall>name \<in> set (map fst services). split name = [name]"
  by code_simp

lemma scan_patterns_no_match:
  "(\<forall>p \<in> set (map fst table). \<not> sublist p message) \<Longrightarrow> scan_patterns message table cur = cur"
  by (induction table arbitrary: cur) auto

lemma scan_patterns_range:
  "scan_patterns message table cur = cur \<or>
   (\<exists>(p, v) \<in> set table. sublist p message \<and> scan_patterns message table cur = Some v)"
  by (induction message table cur rule: scan_patterns.induct) (auto split: if_splits)

lemma find_cases:
  "find P xs = None \<or> (\<exists>x \<in> set xs. P x \<and> find P xs = Some x)"
  by (induction xs) auto

lemma parsed_with_dates_in_catalog:
  "intent.service (parse_with_dates dates msg) = Some name \<Longrightarrow> name \<in> set (map fst services)"
  unfolding parse_with_dates_def Let_def
  using find_cases [of "\<lambda>name. sublist name (lower msg)" "map fst services"]
    find_cases [of "\<lambda>name. list_ex (\<lambda>word. sublist word (lower msg)) (split name)" "map fst services"]
  by (auto simp: falsy_def split: if_splits option.splits)

lemma parsed_service_in_catalog:
  "intent.service (parse_booking_intent now msg) = Some name \<Longrightarrow> name \<in> set (map fst services)"
  unfolding parse_booking_intent_def by (rule parsed_with_dates_in_catalog)

lemma find_none: "(\<forall>x \<in> set xs. \<not> P x) \<Longrightarrow> find P xs = None"
  by (simp add: find_None_iff)

lemma parse_booking_intent_defaults:
  assumes "\<forall>name \<in> set (map fst services). \<not> sublist name (lower msg)"
    and "\<forall>p \<in> set (map fst time_patterns). \<not> sublist p (lower msg)"
    and "\<forall>p \<in> set (map fst (date_patterns now)). \<not> sublist p (lower msg)"
    and "\<forall>w \<in> set urgency_indicators. \<not> sublist w (lower msg)"
    and "\<forall>w \<in> set positive_indicators. \<not> sublist w (lower msg)"
  shows "parse_booking_intent now msg =
     \<lparr>intent.service = None, preferred_time = None, date_preference = None,
      urgency = ''normal'', certainty = ''high'', user_sentiment = ''neutral''\<rparr>"
proof -
  have direct: "find (\<lambda>name. sublist name (lower msg)) (map fst services) = None"
    using assms(1) by (rule find_none)
  have "\<forall>name \<in> set (map fst services). \<not> list_ex (\<lambda>word. sublist word (lower msg)) (split name)"
    using assms(1) by (simp add: split_service_name)
  then have partial: "find (\<lambda>name. list_ex (\<lambda>word. sublist word (lower msg)) (split name)) (map fst services) = None"
    by (rule find_none)
  have u: "\<not> list_ex (\<lambda>word. sublist word (lower msg)) urgency_indicators"
    using assms(4) by (simp add: list_ex_iff)
  have p: "\<not> list_ex (\<lambda>word. sublist word (lower msg)) positive_indicators"
    using assms(5) by (simp add: list_ex_iff)
  show ?thesis
    unfolding parse_booking_intent_def parse_with_dates_def Let_def direct partial
    by (simp add: falsy_def u p scan_patterns_no_match [OF assms(2)] scan_patterns_no_match [OF assms(3)])
qed

lemma no_match_example:
  "(\<forall>name \<in> set (map fst services). \<not> sublist name (lower ''book something'')) \<and>
   (\<forall>p \<in> set (map fst time_patterns). \<not> sublist p (lower ''book something'')) \<and>
   (\<forall>p \<in> set (map fst (date_patterns now)). \<not> sublist p (lower ''book something'')) \<and>
   (\<forall>w \<in> set urgency_indicators. \<not> sublist w (lower ''book something'')) \<and>
   (\<forall>w \<in> set positive_indicators. \<not> sublist w (lower ''book something''))"
proof -
  have l: "lower ''book something'' = ''book something''" by code_simp
  show ?thesis
    unfolding l
    by (simp add: services_def time_patterns_def date_patterns_def urgency_indicators_def
        positive_indicators_def sublist_code prefix_code)
qed

lemma monsoon: "sublist ''soon'' (lower ''After the Monsoon'')"
  by code_simp

text \<open>
  The fields of every parsed intent lie in their domains, and a message that matches no
  entry of any table gives the default intent.
\<close>

lemma parse_booking_intent_fields:
  "(case intent.service (parse_booking_intent now msg) of
      None \<Rightarrow> True | Some name \<Rightarrow> name \<in> set (map fst services)) \<and>
   (case preferred_time (parse_booking_intent now msg) of
      None \<Rightarrow> True | Some r \<Rightarrow> r \<in> set (map snd time_patterns)) \<and>
   (case date_preference (parse_booking_intent now msg) of
      None \<Rightarrow> True | Some d \<Rightarrow> d \<in> set (map snd (date_patterns now))) \<and>
   (urgency (parse_booking_intent now msg) = ''normal'' \<or>
    urgency (parse_booking_intent now msg) = ''high'') \<and>
   (user_sentiment (parse_booking_intent now msg) = ''neutral'' \<or>
    user_sentiment (parse_booking_intent now msg) = ''positive'') \<and>
   ((\<forall>name \<in> set (map fst services). \<not> sublist name (lower msg)) \<and>
    (\<forall>p \<in> set (map fst time_patterns). \<not> sublist p (lower msg)) \<and>
    (\<forall>p \<in> set (map fst (date_patterns now)). \<not> sublist p (lower msg)) \<and>
    (\<forall>w \<in> set urgency_indicators. \<not> sublist w (lower msg)) \<and>
    (\<forall>w \<in> set positive_indicators. \<not> sublist w (lower msg)) \<longrightarrow>
    parse_booking_intent now msg =
      \<lparr>intent.service = None, preferred_time = None, date_preference = None,
       urgency = ''normal'', certainty = ''high'', user_sentiment = ''neutral''\<rparr>)"
proof (intro conjI impI)
  show "case intent.service (parse_booking_intent now msg) of
      None \<Rightarrow> True | Some name \<Rightarrow> name \<in> set (map fst services)"
    by (auto split: option.splits dest: parsed_service_in_catalog)
  have pt: "preferred_time (parse_booking_intent now msg) = scan_patterns (lower msg) time_patterns None"
    and dp: "date_preference (parse_booking_intent now msg) = scan_patterns (lower msg) (date_patterns now) None"
    by (simp_all add: parse_booking_intent_def parse_with_dates_def Let_def)
  show "case preferred_time (parse_booking_intent now msg) of
      None \<Rightarrow> True | Some r \<Rightarrow> r \<in> set (map snd time_patterns)"
    unfolding pt using scan_patterns_range [of "lower msg" time_patterns None]
    by (force split: option.splits)
  show "case date_preference (parse_booking_intent now msg) of
      None \<Rightarrow> True | Some d \<Rightarrow> d \<in> set (map snd (date_patterns now))"
    unfolding dp using scan_patterns_range [of "lower msg" "date_patterns now" None]
    by (force split: option.splits)
  show "urgency (parse_booking_intent now msg) = ''normal'' \<or>
    urgency (parse_booking_intent now msg) = ''high''"
    by (simp add: parse_booking_intent_def parse_with_dates_def Let_def)
  show "user_sentiment (parse_booking_intent now msg) = ''neutral'' \<or>
    user_sentiment (parse_booking_intent now msg) = ''positive''"
    by (simp add: parse_booking_intent_def parse_with_dates_def Let_def)
next
  assume "(\<forall>name \<in> set (map fst services). \<not> sublist name (lower msg)) \<and>
    (\<forall>p \<in> set (map fst time_patterns). \<not> sublist p (lower msg)) \<and>
    (\<forall>p \<in> set (map fst (date_patterns now)). \<not> sublist p (lower msg)) \<and>
    (\<forall>w \<in> set urgency_indicators. \<not> sublist w (lower msg)) \<and>
    (\<forall>w \<in> set positive_indicators. \<not> sublist w (lower msg))"
  then show "parse_booking_intent now msg =
      \<lparr>intent.service = None, preferred_time = None, date_preference = None,
       urgency = ''normal'', certainty = ''high'', user_sentiment = ''neutral''\<rparr>"
    by (intro parse_booking_intent_defaults) blast+
qed

lemma weekday_less_7: "weekday d < 7"
  by (simp add: weekday_def nat_less_iff)

lemma add_days_checked_in_range:
  assumes "1 \<le> ordinal d" and "ordinal d + 7 \<le> max_ordinal" and "0 \<le> n" and "n \<le> 7"
  shows "add_days_checked d n = Inr (add_days d n)"
  using assms by (simp add: add_days_checked_def)

lemma next_weekday_checked_in_range:
  assumes "1 \<le> ordinal now" and "ordinal now + 7 \<le> max_ordinal" and "0 \<le> wd" and "wd \<le> 6"
  shows "next_weekday_checked now wd = Inr (next_weekday now wd)"
proof -
  have w: "int (weekday now) \<le> 6" using weekday_less_7 [of now] by simp
  have "0 \<le> (if wd - int (weekday now) \<le> 0 then wd - int (weekday now) + 7 else wd - int (weekday now))"
    and "(if wd - int (weekday now) \<le> 0 then wd - int (weekday now) + 7 else wd - int (weekday now)) \<le> 7"
    using w assms(3,4) by auto
  then show ?thesis
    unfolding next_weekday_checked_def next_weekday_def Let_def
    by (simp add: add_days_checked_in_range [OF assms(1,2)] bind_error_def)
qed

lemma date_patterns_checked_in_range:
  assumes "1 \<le> ordinal now" and "ordinal now + 7 \<le> max_ordinal"
  shows "date_patterns_checked now = Inr (date_patterns now)"
  unfolding date_patterns_checked_def date_patterns_def
  by (simp add: add_days_checked_in_range [OF assms] next_weekday_checked_in_range [OF assms]
      bind_error_def)

lemma add_days_checked_error: "add_days_checked d n = Inl e \<Longrightarrow> e = OverflowError"
  by (simp add: add_days_checked_def split: if_splits)

lemma next_weekday_checked_error: "next_weekday_checked now wd = Inl e \<Longrightarrow> e = OverflowError"
  unfolding next_weekday_checked_def Let_def bind_error_def
  by (auto split: sum.splits dest: add_days_checked_error)

lemma date_patterns_checked_overflow:
  assumes "max_ordinal < ordinal now + 7"
  shows "date_patterns_checked now = Inl OverflowError"
proof -
  have last: "add_days_checked now 7 = Inl OverflowError"
    using assms by (simp add: add_days_checked_def)
  have e: "date_patterns_checked now = Inl e \<Longrightarrow> e = OverflowError" for e
    unfolding date_patterns_checked_def bind_error_def last
    by (auto split: sum.splits dest: add_days_checked_error next_weekday_checked_error)
  have "\<exists>e. date_patterns_checked now = Inl e"
    unfolding date_patterns_checked_def bind_error_def last
    by (simp split: sum.splits)
  with e show ?thesis by blast
qed

lemma parse_booking_intent_checked_in_range:
  assumes "1 \<le> ordinal now" and "ordinal now + 7 \<le> max_ordinal"
  shows "parse_booking_intent_checked now msg = Inr (parse_booking_intent now msg)"
  by (simp add: parse_booking_intent_checked_def parse_booking_intent_def
      date_patterns_checked_in_range [OF assms] bind_error_def)

lemma parse_booking_intent_checked_overflow:
  assumes "max_ordinal < ordinal now + 7"
  shows "parse_booking_intent_checked now msg = Inl OverflowError"
  by (simp add: parse_booking_intent_checked_def date_patterns_checked_overflow [OF assms]
      bind_error_def)

text \<open>
  C6, as the code has it. For a clock reading at least seven days before 9999-12-31 the
  parser returns an intent for every message, with no error: its service is \<open>None\<close>
  or a catalog name, its time range comes from the table, its urgency and sentiment are
  one of their two values, and for a message that contains no service name, no time
  phrase, no date phrase, no urgency word and no politeness word it is the default
  intent: no service, no time, no date, urgency normal, sentiment neutral. For a clock
  reading in the last seven days of the year 9999 the parser raises \<open>OverflowError\<close>
  for every message.
\<close>

theorem parse_booking_intent_checked_total_defaults:
  assumes "1 \<le> ordinal now"
  shows "(ordinal now + 7 \<le> max_ordinal \<longrightarrow>
      (\<exists>i. parse_booking_intent_checked now msg = Inr i \<and>
         (case intent.service i of None \<Rightarrow> True | Some name \<Rightarrow> name \<in> set (map fst services)) \<and>
         (case preferred_time i of None \<Rightarrow> True | Some r \<Rightarrow> r \<in> set (map snd time_patterns)) \<and>
         (urgency i = ''normal'' \<or> urgency i = ''high'') \<and>
         (user_sentiment i = ''neutral'' \<or> user_sentiment i = ''positive'')) \<and>
      ((\<forall>name \<in> set (map fst services). \<not> sublist name (lower msg)) \<and>
       (\<forall>p \<in> set (map fst time_patterns). \<not> sublist p (lower msg)) \<and>
       (\<forall>p \<in> set (map fst (date_patterns now)). \<not> sublist p (lower msg)) \<and>
       (\<forall>w \<in> set urgency_indicators. \<not> sublist w (lower msg)) \<and>
       (\<forall>w \<in> set positive_indicators. \<not> sublist w (lower msg)) \<longrightarrow>
       parse_booking_intent_checked now msg =
         Inr \<lparr>intent.service = None, preferred_time = None, date_preference = None,
              urgency = ''normal'', certainty = ''high'', user_sentiment = ''neutral''\<rparr>)) \<and>
    (max_ordinal < ordinal now + 7 \<longrightarrow>
      parse_booking_intent_checked now msg = Inl OverflowError)"
proof (intro conjI impI)
  assume r: "ordinal now + 7 \<le> max_ordinal"
  note eq = parse_booking_intent_checked_in_range [OF assms r, of msg]
  note f = parse_booking_intent_fields [of now msg]
  from f have "(case intent.service (parse_booking_intent now msg) of
        None \<Rightarrow> True | Some name \<Rightarrow> name \<in> set (map fst services)) \<and>
      (case preferred_time (parse_booking_intent now msg) of
        None \<Rightarrow> True | Some r \<Rightarrow> r \<in> set (map snd time_patterns)) \<and>
      (urgency (parse_booking_intent now msg) = ''normal'' \<or>
       urgency (parse_booking_intent now msg) = ''high'') \<and>
      (user_sentiment (parse_booking_intent now msg) = ''neutral'' \<or>
       user_sentiment (parse_booking_intent now msg) = ''positive'')"
    by blast
  with eq show "\<exists>i. parse_booking_intent_checked now msg = Inr i \<and>
         (case intent.service i of None \<Rightarrow> True | Some name \<Rightarrow> name \<in> set (map fst services)) \<and>
         (case preferred_time i of None \<Rightarrow> True | Some r \<Rightarrow> r \<in> set (map snd time_patterns)) \<and>
         (urgency i = ''normal'' \<or> urgency i = ''high'') \<and>
         (user_sentiment i = ''neutral'' \<or> user_sentiment i = ''positive'')"
    by blast
  assume "(\<forall>name \<in> set (map fst services). \<not> sublist name (lower msg)) \<and>
       (\<forall>p \<in> set (map fst time_patterns). \<not> sublist p (lower msg)) \<and>
       (\<forall>p \<in> set (map fst (date_patterns now)). \<not> sublist p (lower msg)) \<and>
       (\<forall>w \<in> set urgency_indicators. \<not> sublist w (lower msg)) \<and>
       (\<forall>w \<in> set positive_indicators. \<not> sublist w (lower msg))"
  then have "parse_booking_intent now msg =
      \<lparr>intent.service = None, preferred_time = None, date_preference = None,
       urgency = ''normal'', certainty = ''high'', user_sentiment = ''neutral''\<rparr>"
    by (intro parse_booking_intent_defaults) blast+
  with eq show "parse_booking_intent_checked now msg =
         Inr \<lparr>intent.service = None, preferred_time = None, date_preference = None,
              urgency = ''normal'', certainty = ''high'', user_sentiment = ''neutral''\<rparr>"
    by simp
next
  assume "max_ordinal < ordinal now + 7"
  then show "parse_booking_intent_checked now msg = Inl OverflowError"
    by (rule parse_booking_intent_checked_overflow)
qed

text \<open>
  The message \<open>book something\<close> matches nothing; 9999-12-28 is in the last week.
\<close>

theorem parse_booking_intent_checked_total_defaults_witness:
  "1 \<le> ordinal wednesday \<and> ordinal wednesday + 7 \<le> max_ordinal \<and>
   parse_booking_intent_checked wednesday ''book something'' =
     Inr \<lparr>intent.service = None, preferred_time = None, date_preference = None,
          urgency = ''normal'', certainty = ''high'', user_sentiment = ''neutral''\<rparr> \<and>
   1 \<le> ordinal last_week_of_9999 \<and> max_ordinal < ordinal last_week_of_9999 + 7 \<and>
   parse_booking_intent_checked last_week_of_9999 default_request = Inl OverflowError"
proof -
  have h1: "1 \<le> ordinal wednesday" and h2: "ordinal wednesday + 7 \<le> max_ordinal"
    by (simp_all add: wednesday_def max_ordinal_def)
  have h3: "1 \<le> ordinal last_week_of_9999" and h4: "max_ordinal < ordinal last_week_of_9999 + 7"
    by (simp_all add: last_week_of_9999_def max_ordinal_def)
  note t1 = parse_booking_intent_checked_total_defaults [OF h1, of "''book something''",
      THEN conjunct1, rule_format, OF h2, THEN conjunct2, rule_format, OF no_match_example]
  note t2 = parse_booking_intent_checked_total_defaults [OF h3, of default_request,
      THEN conjunct2, rule_format, OF h4]
  from h1 h2 h3 h4 t1 t2 show ?thesis by (intro conjI)
qed

text \<open>
  C6 as stated fails: on 9999-12-28 the parser raises \<open>OverflowError\<close> on the message
  \<open>book something\<close>, because the date of next week is past the last date of Python.
\<close>

theorem parse_raises_in_last_week_counterexample:
  "parse_booking_intent_checked last_week_of_9999 ''book something'' = Inl OverflowError"
  by code_simp

text \<open>
  C10. Urgency and sentiment are substring tests on the lowercased message: urgency is
  \<open>high\<close> exactly when one of urgent, asap, emergency, quick, soon occurs anywhere in
  it, also inside a longer word, and sentiment is \<open>positive\<close> exactly when one of
  please, thank, appreciate, would like occurs anywhere in it.
\<close>

theorem urgency_sentiment_substring:
  "(urgency (parse_booking_intent now msg) = ''high'' \<longleftrightarrow>
      sublist ''urgent'' (lower msg) \<or> sublist ''asap'' (lower msg) \<or>
      sublist ''emergency'' (lower msg) \<or> sublist ''quick'' (lower msg) \<or>
      sublist ''soon'' (lower msg)) \<and>
   (user_sentiment (parse_booking_intent now msg) = ''positive'' \<longleftrightarrow>
      sublist ''please'' (lower msg) \<or> sublist ''thank'' (lower msg) \<or>
      sublist ''appreciate'' (lower msg) \<or> sublist ''would like'' (lower msg))"
  by (simp add: parse_booking_intent_def parse_with_dates_def Let_def urgency_indicators_def positive_indicators_def)

text \<open>
  The word monsoon contains soon.
\<close>

theorem urgency_sentiment_substring_witness:
  "urgency (parse_booking_intent wednesday ''After the Monsoon'') = ''high''"
  using urgency_sentiment_substring [of wednesday "''After the Monsoon''"] monsoon
  by blast

subsection \<open>The ledger\<close>

lemma is_slot_booked_iff:
  "is_slot_booked a slot \<longleftrightarrow>
     (\<exists>(k, ap) \<in> set (appointments a). scheduled_time ap = slot \<and> status ap \<noteq> CANCELLED)"
  unfolding is_slot_booked_def list_ex_iff by force

lemma create_appointment_known:
  assumes "map_of services svc = Some info"
  shows "create_appointment now a uid svc slot =
     (Inr \<lparr>appointment_id = apt_id (next_appointment_id a), user_id = uid, service = svc,
           scheduled_time = slot, duration = service_info.duration info, status = CONFIRMED,
           created_at = now, confirmed_at = Some now\<rparr>,
      \<lparr>appointments = AList.update (apt_id (next_appointment_id a))
          \<lparr>appointment_id = apt_id (next_appointment_id a), user_id = uid, service = svc,
           scheduled_time = slot, duration = service_info.duration info, status = CONFIRMED,
           created_at = now, confirmed_at = Some now\<rparr> (appointments a),
       available_slots = filter (\<lambda>s. s \<noteq> slot) (available_slots a),
       next_appointment_id = next_appointment_id a + 1\<rparr>)"
  using assms
  by (simp add: create_appointment_def Let_def confirm_def new_appointment_def remove_slot_def)

lemma create_appointment_unknown:
  assumes "map_of services svc = None"
  shows "create_appointment now a uid svc slot =
     (Inl (KeyError svc), a\<lparr>next_appointment_id := next_appointment_id a + 1\<rparr>)"
  using assms by (simp add: create_appointment_def Let_def)

lemma is_slot_booked_after_update:
  assumes "scheduled_time ap = slot" and "status ap \<noteq> CANCELLED"
    and "appointments a' = AList.update k ap (appointments a)"
  shows "is_slot_booked a' slot"
proof -
  have "map_of (appointments a') k = Some ap"
    using assms(3) by (simp add: update_conv')
  then have "(k, ap) \<in> set (appointments a')"
    by (rule map_of_SomeD)
  with assms(1,2) show ?thesis
    unfolding is_slot_booked_iff by auto
qed

lemma find_available_slots_subset:
  "set (find_available_slots a svc d) \<subseteq> set (collect_available a d)"
  unfolding find_available_slots_def
  by (auto split: option.splits dest: in_set_takeD)

lemma collect_available_unbooked:
  "s \<in> set (collect_available a d) \<Longrightarrow> \<not> is_slot_booked a s \<and> s \<in> set (available_slots a)"
  unfolding collect_available_def by simp

lemma find_available_slots_head:
  assumes "find_available_slots a svc d = slot # rest"
  shows "\<not> is_slot_booked a slot" and "\<exists>info. map_of services svc = Some info"
proof -
  have "slot \<in> set (find_available_slots a svc d)" unfolding assms by simp
  then have "slot \<in> set (collect_available a d)"
    using find_available_slots_subset by blast
  then show "\<not> is_slot_booked a slot"
    by (simp add: collect_available_unbooked)
  from assms show "\<exists>info. map_of services svc = Some info"
    unfolding find_available_slots_def by (cases "map_of services svc") simp_all
qed

lemma map_of_services_iff: "(\<exists>info. map_of services svc = Some info) \<longleftrightarrow> svc \<in> set (map fst services)"
  by (metis domIff dom_map_of_conv_image_fst list.set_map option.exhaust option.distinct(1))

lemma service_names_nonempty: "[] \<notin> set (map fst services)"
  by (simp add: services_def)

lemma create_appointment_never_spec_error:
  "fst (create_appointment now a uid svc slot) \<noteq> Inl (SlotConflict s) \<and>
   fst (create_appointment now a uid svc slot) \<noteq> Inl (UnknownService n)"
  by (cases "map_of services svc")
    (simp_all add: create_appointment_unknown create_appointment_known)

text \<open>
  C2, as the code has it. After \<open>create_appointment\<close> succeeds for a slot, the slot is
  booked, it is gone from \<open>available_slots\<close>, and \<open>find_available_slots\<close> offers it
  for no service and no date preference. \<open>create_appointment\<close> itself makes no
  occupancy check: no call of it on that slot ends in a slot conflict.
\<close>

theorem create_appointment_occupies_slot:
  assumes "create_appointment now a uid svc slot = (Inr ap, a')"
  shows "is_slot_booked a' slot \<and> slot \<notin> set (available_slots a') \<and>
    (\<forall>svc' d. slot \<notin> set (find_available_slots a' svc' d)) \<and>
    (\<forall>now' uid' svc'. fst (create_appointment now' a' uid' svc' slot) \<noteq> Inl (SlotConflict slot))"
proof -
  from assms obtain info where info: "map_of services svc = Some info"
    by (cases "map_of services svc") (auto simp: create_appointment_unknown)
  from assms have a': "a' = snd (create_appointment now a uid svc slot)" by simp
  let ?ap = "\<lparr>appointment_id = apt_id (next_appointment_id a), user_id = uid, service = svc,
           scheduled_time = slot, duration = service_info.duration info, status = CONFIRMED,
           created_at = now, confirmed_at = Some now\<rparr>"
  have app: "appointments a' = AList.update (apt_id (next_appointment_id a)) ?ap (appointments a)"
    and av: "available_slots a' = filter (\<lambda>s. s \<noteq> slot) (available_slots a)"
    unfolding a' by (simp_all add: create_appointment_known [OF info])
  have booked: "is_slot_booked a' slot"
    by (rule is_slot_booked_after_update [OF _ _ app]) simp_all
  have gone: "slot \<notin> set (available_slots a')"
    unfolding av by simp
  have "slot \<notin> set (find_available_slots a' svc' d)" for svc' d
    using find_available_slots_subset [of a' svc' d] collect_available_unbooked [of slot a' d] booked
    by blast
  with booked gone create_appointment_never_spec_error show ?thesis by blast
qed

text \<open>
  Thursday 09:00 booked for the dentist on a fresh agent.
\<close>

theorem create_appointment_occupies_slot_witness:
  "is_slot_booked
     (snd (create_appointment wednesday (init_agent wednesday) default_user ''dentist'' (Datetime 739925 9 0 0 0)))
     (Datetime 739925 9 0 0 0) \<and>
   Datetime 739925 9 0 0 0 \<notin> set (find_available_slots
     (snd (create_appointment wednesday (init_agent wednesday) default_user ''dentist'' (Datetime 739925 9 0 0 0)))
     ''doctor'' None)"
proof -
  have "\<exists>ap. create_appointment wednesday (init_agent wednesday) default_user ''dentist'' (Datetime 739925 9 0 0 0) =
      (Inr ap, snd (create_appointment wednesday (init_agent wednesday) default_user ''dentist'' (Datetime 739925 9 0 0 0)))"
    by (simp add: create_appointment_def Let_def services_def)
  then obtain ap where "create_appointment wednesday (init_agent wednesday) default_user ''dentist'' (Datetime 739925 9 0 0 0) =
      (Inr ap, snd (create_appointment wednesday (init_agent wednesday) default_user ''dentist'' (Datetime 739925 9 0 0 0)))"
    by blast
  from create_appointment_occupies_slot [OF this] show ?thesis by blast
qed

text \<open>
  C2 as stated fails: a second \<open>create_appointment\<close> on the slot just booked
  succeeds, and the ledger then holds two confirmed appointments at Thursday 09:00.
\<close>

theorem double_booking_counterexample:
  "fst (create_appointment wednesday
      (snd (create_appointment wednesday (init_agent wednesday) default_user ''dentist'' (Datetime 739925 9 0 0 0)))
      ''ann'' ''doctor'' (Datetime 739925 9 0 0 0)) \<noteq> Inl (SlotConflict (Datetime 739925 9 0 0 0)) \<and>
   map fst (appointments (snd (create_appointment wednesday
      (snd (create_appointment wednesday (init_agent wednesday) default_user ''dentist'' (Datetime 739925 9 0 0 0)))
      ''ann'' ''doctor'' (Datetime 739925 9 0 0 0)))) = [''apt_0001'', ''apt_0002''] \<and>
   map (scheduled_time \<circ> snd) (appointments (snd (create_appointment wednesday
      (snd (create_appointment wednesday (init_agent wednesday) default_user ''dentist'' (Datetime 739925 9 0 0 0)))
      ''ann'' ''doctor'' (Datetime 739925 9 0 0 0)))) =
     [Datetime 739925 9 0 0 0, Datetime 739925 9 0 0 0] \<and>
   map (status \<circ> snd) (appointments (snd (create_appointment wednesday
      (snd (create_appointment wednesday (init_agent wednesday) default_user ''dentist'' (Datetime 739925 9 0 0 0)))
      ''ann'' ''doctor'' (Datetime 739925 9 0 0 0)))) = [CONFIRMED, CONFIRMED]"
  by code_simp

text \<open>
  C8, as the code has it. For a service name that is not in the catalog,
  \<open>create_appointment\<close> raises the \<open>KeyError\<close> of the dictionary lookup for that
  name; no appointment is stored and the slot list is unchanged.
\<close>

theorem create_appointment_unknown_service:
  assumes "svc \<notin> set (map fst services)"
  shows "fst (create_appointment now a uid svc slot) = Inl (KeyError svc) \<and>
    appointments (snd (create_appointment now a uid svc slot)) = appointments a \<and>
    available_slots (snd (create_appointment now a uid svc slot)) = available_slots a"
proof -
  from assms have "map_of services svc = None"
    by (meson map_of_services_iff option.exhaust)
  then show ?thesis by (simp add: create_appointment_unknown)
qed

text \<open>
  There is no service \<open>plumber\<close>.
\<close>

theorem create_appointment_unknown_service_witness:
  "''plumber'' \<notin> set (map fst services) \<and>
   fst (create_appointment wednesday (init_agent wednesday) default_user ''plumber'' (Datetime 739925 9 0 0 0)) =
     Inl (KeyError ''plumber'')"
proof -
  have "''plumber'' \<notin> set (map fst services)" by (simp add: services_def)
  with create_appointment_unknown_service [of "''plumber''" wednesday "init_agent wednesday" default_user "Datetime 739925 9 0 0 0"]
  show ?thesis by blast
qed

text \<open>
  C8 as stated fails: the failure is a \<open>KeyError\<close>, not an unknown-service result,
  and the call has used up appointment number 1.
\<close>

theorem unknown_service_counterexample:
  "fst (create_appointment wednesday (init_agent wednesday) default_user ''plumber'' (Datetime 739925 9 0 0 0)) \<noteq>
     Inl (UnknownService ''plumber'') \<and>
   fst (create_appointment wednesday (init_agent wednesday) default_user ''plumber'' (Datetime 739925 9 0 0 0)) =
     Inl (KeyError ''plumber'') \<and>
   next_appointment_id (snd (create_appointment wednesday (init_agent wednesday) default_user ''plumber'' (Datetime 739925 9 0 0 0))) = 2"
  by code_simp

subsection \<open>The booking workflow\<close>

lemma parsed_service_known:
  assumes "intent.service (parse_booking_intent now msg) = Some svc"
  shows "svc \<noteq> []" and "\<exists>info. map_of services svc = Some info"
proof -
  from assms have "svc \<in> set (map fst services)" by (rule parsed_service_in_catalog)
  then show "svc \<noteq> []" using service_names_nonempty by metis
  from \<open>svc \<in> set (map fst services)\<close> show "\<exists>info. map_of services svc = Some info"
    by (simp only: map_of_services_iff)
qed

lemma hd_take_sort:
  assumes "xs \<noteq> []"
  shows "\<exists>rest. take 6 (sort xs) = (sort xs ! 0) # rest"
proof -
  from assms have "sort xs \<noteq> []" by (metis length_sort length_0_conv)
  then obtain y ys where "sort xs = y # ys" by (cases "sort xs") auto
  then show ?thesis by simp
qed

lemma process_clarification:
  assumes "falsy (intent.service (parse_booking_intent now msg))"
  shows "process_booking_request now a uid msg =
     (Inr (Clarification_needed (map fst services)
        [''doctor'', ''dentist'', ''therapy'', ''massage'', ''consultation'']), a)"
  using assms unfolding process_booking_request_def Let_def falsy_def
  by (auto split: option.splits)

lemma process_no_slots:
  assumes "intent.service (parse_booking_intent now msg) = Some svc"
    and "collect_available a (date_preference (parse_booking_intent now msg)) = []"
  shows "process_booking_request now a uid msg =
     (Inr (No_slots svc (filter (\<lambda>s. s \<noteq> svc) (map fst services))), a)"
proof -
  from parsed_service_known [OF assms(1)] obtain info
    where ne: "svc \<noteq> []" and info: "map_of services svc = Some info" by auto
  have "find_available_slots a svc (date_preference (parse_booking_intent now msg)) = []"
    unfolding find_available_slots_def using info assms(2) by simp
  then show ?thesis
    unfolding process_booking_request_def Let_def using assms(1) ne by simp
qed

lemma process_success:
  assumes "intent.service (parse_booking_intent now msg) = Some svc"
    and "collect_available a (date_preference (parse_booking_intent now msg)) \<noteq> []"
    and "map_of services svc = Some info"
  shows "process_booking_request now a uid msg =
     (Inr (Success
        (projr (fst (create_appointment now a uid svc
           (sort (collect_available a (date_preference (parse_booking_intent now msg))) ! 0))))
        (price info) (type info)),
      snd (create_appointment now a uid svc
           (sort (collect_available a (date_preference (parse_booking_intent now msg))) ! 0)))"
proof -
  from parsed_service_known [OF assms(1)] have ne: "svc \<noteq> []" by simp
  from hd_take_sort [OF assms(2)] obtain rest where
    "take 6 (sort (collect_available a (date_preference (parse_booking_intent now msg)))) =
      (sort (collect_available a (date_preference (parse_booking_intent now msg))) ! 0) # rest"
    by blast
  then have f: "find_available_slots a svc (date_preference (parse_booking_intent now msg)) =
      (sort (collect_available a (date_preference (parse_booking_intent now msg))) ! 0) # rest"
    unfolding find_available_slots_def using assms(3) by simp
  show ?thesis
    unfolding process_booking_request_def Let_def
    using assms(1) ne f assms(3)
    by (simp add: create_appointment_known [OF assms(3)])
qed


lemma sort_nth0_le: "x \<in> set xs \<Longrightarrow> sort xs ! 0 \<le> x"
proof -
  assume "x \<in> set xs"
  then have "x \<in> set (sort xs)" by simp
  then obtain i where i: "i < length (sort xs)" and x: "sort xs ! i = x"
    unfolding in_set_conv_nth by blast
  have "sorted (sort xs)" by (rule sorted_sort)
  then have "sort xs ! 0 \<le> sort xs ! i"
    using i by (simp add: sorted_nth_mono)
  with x show ?thesis by simp
qed

lemma process_success_appointment:
  assumes svc: "intent.service (parse_booking_intent now msg) = Some svc"
    and ne: "collect_available a (date_preference (parse_booking_intent now msg)) \<noteq> []"
    and info: "map_of services svc = Some info"
    and slot: "slot = sort (collect_available a (date_preference (parse_booking_intent now msg))) ! 0"
  shows "\<exists>ap a'. create_appointment now a uid svc slot = (Inr ap, a') \<and>
      process_booking_request now a uid msg = (Inr (Success ap (price info) (type info)), a') \<and>
      scheduled_time ap = slot \<and> duration ap = service_info.duration info \<and>
      service ap = svc \<and> status ap = CONFIRMED"
proof -
  let ?ap = "\<lparr>appointment_id = apt_id (next_appointment_id a), user_id = uid, service = svc,
           scheduled_time = slot, duration = service_info.duration info, status = CONFIRMED,
           created_at = now, confirmed_at = Some now\<rparr>"
  let ?a' = "snd (create_appointment now a uid svc slot)"
  have c: "create_appointment now a uid svc slot = (Inr ?ap, ?a')"
    by (simp add: create_appointment_known [OF info])
  have "process_booking_request now a uid msg =
      (Inr (Success (projr (fst (create_appointment now a uid svc slot))) (price info) (type info)), ?a')"
    unfolding slot by (rule process_success [OF svc ne info])
  also have "projr (fst (create_appointment now a uid svc slot)) = ?ap"
    by (simp add: create_appointment_known [OF info])
  finally have p: "process_booking_request now a uid msg =
      (Inr (Success ?ap (price info) (type info)), ?a')" .
  have "create_appointment now a uid svc slot = (Inr ?ap, ?a') \<and>
      process_booking_request now a uid msg = (Inr (Success ?ap (price info) (type info)), ?a') \<and>
      scheduled_time ?ap = slot \<and> duration ?ap = service_info.duration info \<and>
      service ?ap = svc \<and> status ?ap = CONFIRMED"
    using c p by simp
  then show ?thesis by blast
qed

text \<open>
  C4. \<open>process_booking_request\<close> answers \<open>clarification_needed\<close> exactly when the
  parsed intent has no service. Otherwise it answers \<open>no_slots\<close> exactly when no slot
  of the slot list is unbooked and, if the intent has a date preference, on that date.
  Otherwise it calls \<open>create_appointment\<close> on element 0 of the ascending candidate list,
  which is the earliest candidate, and answers \<open>success\<close> with the appointment created,
  and the price and type of the service.
\<close>

theorem process_booking_request_outcome:
  "((\<exists>names sugg. fst (process_booking_request now a uid msg) = Inr (Clarification_needed names sugg)) \<longleftrightarrow>
      falsy (intent.service (parse_booking_intent now msg))) \<and>
   (\<not> falsy (intent.service (parse_booking_intent now msg)) \<longrightarrow>
      ((\<exists>svc alts. fst (process_booking_request now a uid msg) = Inr (No_slots svc alts)) \<longleftrightarrow>
       collect_available a (date_preference (parse_booking_intent now msg)) = [])) \<and>
   (\<not> falsy (intent.service (parse_booking_intent now msg)) \<and>
    collect_available a (date_preference (parse_booking_intent now msg)) \<noteq> [] \<longrightarrow>
      (\<exists>svc info ap a'.
         intent.service (parse_booking_intent now msg) = Some svc \<and>
         map_of services svc = Some info \<and>
         create_appointment now a uid svc
           (sort (collect_available a (date_preference (parse_booking_intent now msg))) ! 0) = (Inr ap, a') \<and>
         process_booking_request now a uid msg = (Inr (Success ap (price info) (type info)), a') \<and>
         scheduled_time ap = sort (collect_available a (date_preference (parse_booking_intent now msg))) ! 0 \<and>
         (\<forall>s \<in> set (collect_available a (date_preference (parse_booking_intent now msg))).
            scheduled_time ap \<le> s)))"
  (is "(?clar \<longleftrightarrow> ?falsy) \<and> (\<not> ?falsy \<longrightarrow> (?noslots \<longleftrightarrow> ?cands = [])) \<and>
       (\<not> ?falsy \<and> ?cands \<noteq> [] \<longrightarrow> ?booked)")
proof -
  consider (A) "?falsy" | (B) "\<not> ?falsy" "?cands = []" | (C) "\<not> ?falsy" "?cands \<noteq> []"
    by blast
  then show ?thesis
  proof cases
    case A
    have "fst (process_booking_request now a uid msg) =
        Inr (Clarification_needed (map fst services)
          [''doctor'', ''dentist'', ''therapy'', ''massage'', ''consultation''])"
      by (simp add: process_clarification [OF A])
    then have ?clar by blast
    with A show ?thesis by blast
  next
    case B
    from B(1) obtain svc where svc: "intent.service (parse_booking_intent now msg) = Some svc"
      by (auto simp: falsy_def)
    have r: "fst (process_booking_request now a uid msg) =
        Inr (No_slots svc (filter (\<lambda>s. s \<noteq> svc) (map fst services)))"
      by (simp add: process_no_slots [OF svc B(2)])
    then have ?noslots by blast
    moreover have "\<not> ?clar" unfolding r by simp
    ultimately show ?thesis using B by blast
  next
    case C
    from C(1) obtain svc where svc: "intent.service (parse_booking_intent now msg) = Some svc"
      by (auto simp: falsy_def)
    from parsed_service_known(2) [OF svc] obtain info where info: "map_of services svc = Some info"
      by blast
    from process_success_appointment [OF svc C(2) info refl, of uid]
    obtain ap a' where c: "create_appointment now a uid svc (sort ?cands ! 0) = (Inr ap, a')"
      and p: "process_booking_request now a uid msg = (Inr (Success ap (price info) (type info)), a')"
      and t: "scheduled_time ap = sort ?cands ! 0"
      by blast
    have least: "\<forall>s \<in> set ?cands. scheduled_time ap \<le> s"
      unfolding t by (simp add: sort_nth0_le)
    have ?booked
      using svc info c p t least by blast
    moreover have "\<not> ?clar" and "\<not> ?noslots"
      unfolding p by simp_all
    ultimately show ?thesis using C by blast
  qed
qed

text \<open>
  One request for each outcome: no service named; the default request on a Friday, when
  tomorrow has no slots; the default request on a Wednesday.
\<close>

theorem process_booking_request_outcome_witness:
  "(falsy (intent.service (parse_booking_intent wednesday ''book something'')) \<and>
    (\<exists>names sugg. fst (process_booking_request wednesday (init_agent wednesday) default_user ''book something'') =
       Inr (Clarification_needed names sugg))) \<and>
   (\<not> falsy (intent.service (parse_booking_intent friday default_request)) \<and>
    collect_available (init_agent friday) (date_preference (parse_booking_intent friday default_request)) = [] \<and>
    (\<exists>svc alts. fst (process_booking_request friday (init_agent friday) default_user default_request) =
       Inr (No_slots svc alts))) \<and>
   (\<not> falsy (intent.service (parse_booking_intent wednesday default_request)) \<and>
    collect_available (init_agent wednesday) (date_preference (parse_booking_intent wednesday default_request)) \<noteq> [] \<and>
    (\<exists>ap p t. fst (process_booking_request wednesday (init_agent wednesday) default_user default_request) =
       Inr (Success ap p t)))"
proof -
  have h1: "falsy (intent.service (parse_booking_intent wednesday ''book something''))"
    by code_simp
  have h2: "\<not> falsy (intent.service (parse_booking_intent friday default_request))"
    "collect_available (init_agent friday) (date_preference (parse_booking_intent friday default_request)) = []"
    by code_simp+
  have h3: "\<not> falsy (intent.service (parse_booking_intent wednesday default_request))"
    "collect_available (init_agent wednesday) (date_preference (parse_booking_intent wednesday default_request)) \<noteq> []"
    by code_simp+
  note t1 = process_booking_request_outcome
    [of wednesday "init_agent wednesday" default_user "''book something''", THEN conjunct1]
  note t2 = process_booking_request_outcome
    [of friday "init_agent friday" default_user default_request, THEN conjunct2, THEN conjunct1,
      rule_format, OF h2(1)]
  note t3 = process_booking_request_outcome
    [of wednesday "init_agent wednesday" default_user default_request, THEN conjunct2, THEN conjunct2,
      rule_format, OF conjI [OF h3(1) h3(2)]]
  from t1 h1
  have c1: "\<exists>names sugg. fst (process_booking_request wednesday (init_agent wednesday) default_user ''book something'') =
       Inr (Clarification_needed names sugg)"
    by (rule iffD2)
  from t2 h2(2)
  have c2: "\<exists>svc alts. fst (process_booking_request friday (init_agent friday) default_user default_request) =
       Inr (No_slots svc alts)"
    by (rule iffD2)
  from t3 obtain info :: service_info and ap a' where
    "process_booking_request wednesday (init_agent wednesday) default_user default_request =
       (Inr (Success ap (price info) (type info)), a')"
    by blast
  then have "fst (process_booking_request wednesday (init_agent wednesday) default_user default_request) =
       Inr (Success ap (price info) (type info))"
    by simp
  then have c3: "\<exists>ap p t. fst (process_booking_request wednesday (init_agent wednesday) default_user default_request) =
       Inr (Success ap p t)"
    by (intro exI)
  from h1 h2 h3 c1 c2 c3 show ?thesis by (intro conjI)
qed

subsection \<open>A clock that stands still\<close>

lemma fold_append_ticks:
  fixes k :: "'x \<Rightarrow> nat"
  assumes "\<And>x slots t. step x (slots, t) = (slots @ g x, t + k x)"
  shows "fold step xs (slots, t) = (slots @ concat (map g xs), t + sum_list (map k xs))"
  by (induction xs arbitrary: slots t) (simp_all add: assms)

lemma day_slots_clk_fixed:
  "day_slots_clk (\<lambda>_. now) current_date (slots, t) = (slots @ day_slots now current_date, t + 16)"
proof -
  have inner: "fold (\<lambda>m (slots, t).
         let slot_time = replace_hm current_date h m
         in (if slot_time > add_hours now 1 then slots @ [slot_time] else slots, t + 1))
       ms (slots, t) =
     (slots @ concat (map (\<lambda>m. let slot_time = replace_hm current_date h m
         in if slot_time > add_hours now 1 then [slot_time] else []) ms),
      t + sum_list (map (\<lambda>m. 1) ms))" for h ms slots and t :: nat
    by (rule fold_append_ticks
        [where g = "\<lambda>m. let slot_time = replace_hm current_date h m
           in if slot_time > add_hours now 1 then [slot_time] else []" and k = "\<lambda>m. 1"])
      (simp add: Let_def)
  have "day_slots_clk (\<lambda>_. now) current_date (slots, t) =
      (slots @ concat (map (\<lambda>h. concat (map (\<lambda>m. let slot_time = replace_hm current_date h m
         in if slot_time > add_hours now 1 then [slot_time] else []) [0, 30])) [9..<17]),
       t + sum_list (map (\<lambda>h. sum_list (map (\<lambda>m. 1) [0, 30 :: nat])) [9..<17]))"
    unfolding day_slots_clk_def
    by (rule fold_append_ticks
        [where g = "\<lambda>h. concat (map (\<lambda>m. let slot_time = replace_hm current_date h m
           in if slot_time > add_hours now 1 then [slot_time] else []) [0, 30])"
          and k = "\<lambda>h. sum_list (map (\<lambda>m. 1) [0, 30 :: nat])"])
      (rule inner)
  also have "sum_list (map (\<lambda>h. sum_list (map (\<lambda>m. 1) [0, 30 :: nat])) [9..<17]) = (16 :: nat)"
    by (simp add: sum_list_triv)
  finally show ?thesis
    unfolding day_slots_def .
qed

lemma generate_weekly_slots_clk_fixed:
  "fst (generate_weekly_slots_clk (\<lambda>_. now) t) = generate_weekly_slots now"
proof -
  let ?start = "replace_hmsu now 9 0 0 0"
  have "fold (\<lambda>day st.
           let current_date = add_days ?start (int day)
           in if weekday current_date \<ge> 5 then st else day_slots_clk (\<lambda>_. now) current_date st)
         days (slots, t') =
       (slots @ concat (map (\<lambda>day. let current_date = add_days ?start (int day)
           in if weekday current_date \<ge> 5 then [] else day_slots now current_date) days),
        t' + sum_list (map (\<lambda>day. if weekday (add_days ?start (int day)) \<ge> 5 then 0 else 16) days))"
    for days slots and t' :: nat
    by (rule fold_append_ticks
        [where g = "\<lambda>day. let current_date = add_days ?start (int day)
           in if weekday current_date \<ge> 5 then [] else day_slots now current_date"
          and k = "\<lambda>day. if weekday (add_days ?start (int day)) \<ge> 5 then 0 else 16"])
      (simp add: Let_def day_slots_clk_fixed)
  then show ?thesis
    unfolding generate_weekly_slots_clk_def generate_weekly_slots_def Let_def
    by simp
qed

lemma date_patterns_clk_fixed: "date_patterns_clk (\<lambda>_. now) t = date_patterns now"
  by (simp add: date_patterns_clk_def date_patterns_def)

lemma parse_booking_intent_clk_fixed:
  "parse_booking_intent_clk (\<lambda>_. now) t msg = (parse_booking_intent now msg, t + 7)"
  by (simp add: parse_booking_intent_clk_def parse_booking_intent_def date_patterns_clk_fixed)

lemma init_agent_clk_fixed: "fst (init_agent_clk (\<lambda>_. now) t) = init_agent now"
  by (simp add: init_agent_clk_def init_agent_def Let_def generate_weekly_slots_clk_fixed)

lemma create_appointment_clk_fixed:
  "fst (create_appointment_clk (\<lambda>_. now) t a uid svc slot) = create_appointment now a uid svc slot"
  by (simp add: create_appointment_clk_def create_appointment_def Let_def split: option.splits)

lemma process_booking_request_clk_fixed:
  "fst (process_booking_request_clk (\<lambda>_. now) t a uid msg) = process_booking_request now a uid msg"
proof -
  have c: "create_appointment_clk (\<lambda>_. now) t' a uid svc slot =
      (create_appointment now a uid svc slot, snd (create_appointment_clk (\<lambda>_. now) t' a uid svc slot))"
    for t' svc slot
    by (simp add: prod_eq_iff create_appointment_clk_fixed)
  show ?thesis
    unfolding process_booking_request_clk_def process_booking_request_def Let_def
      parse_booking_intent_clk_fixed fst_conv snd_conv
    by (subst c) (simp split: option.splits list.splits sum.splits prod.splits)
qed

text \<open>Two clocks that differ give different intents for \<open>tomorrow\<close>.\<close>

lemma clock_matters:
  "fst (parse_booking_intent_clk (\<lambda>_. wednesday) 0 ''tomorrow'') \<noteq>
   fst (parse_booking_intent_clk (\<lambda>_. friday) 0 ''tomorrow'')"
  by code_simp

text \<open>
  When the clock returns the same time at every reading, the clock-reading form of each
  operation returns what the snapshot form returns, whatever the number of readings made
  before.
\<close>

lemma standing_clock_agrees:
  assumes "\<forall>n. clk n = now" and "\<forall>n. clk' n = now"
  shows "fst (generate_weekly_slots_clk clk t) = fst (generate_weekly_slots_clk clk' t') \<and>
    fst (parse_booking_intent_clk clk t msg) = fst (parse_booking_intent_clk clk' t' msg) \<and>
    fst (create_appointment_clk clk t a uid svc slot) =
      fst (create_appointment_clk clk' t' a uid svc slot) \<and>
    fst (process_booking_request_clk clk t a uid msg) =
      fst (process_booking_request_clk clk' t' a uid msg) \<and>
    fst (process_booking_request_clk clk t a uid msg) = process_booking_request now a uid msg"
proof -
  from assms have "clk = (\<lambda>_. now)" and "clk' = (\<lambda>_. now)"
    by (simp_all add: fun_eq_iff)
  then show ?thesis
    by (simp add: generate_weekly_slots_clk_fixed parse_booking_intent_clk_fixed
        create_appointment_clk_fixed process_booking_request_clk_fixed)
qed

subsection \<open>Reachable states\<close>

lemma create_appointment_clk_known:
  assumes "map_of services svc = Some info"
  shows "\<exists>ap. create_appointment_clk clk t a uid svc slot =
      ((Inr ap,
        \<lparr>appointments = AList.update (apt_id (next_appointment_id a)) ap (appointments a),
         available_slots = filter (\<lambda>s. s \<noteq> slot) (available_slots a),
         next_appointment_id = next_appointment_id a + 1\<rparr>), t + 2) \<and>
     scheduled_time ap = slot \<and> status ap = CONFIRMED"
  using assms
  by (simp add: create_appointment_clk_def Let_def confirm_def new_appointment_def remove_slot_def)

lemma process_clk_step_shape:
  "snd (fst (process_booking_request_clk clk t a uid msg)) = a \<or>
   (\<exists>k ap. \<not> is_slot_booked a (scheduled_time ap) \<and>
      appointments (snd (fst (process_booking_request_clk clk t a uid msg))) =
        AList.update k ap (appointments a) \<and>
      available_slots (snd (fst (process_booking_request_clk clk t a uid msg))) =
        filter (\<lambda>s. s \<noteq> scheduled_time ap) (available_slots a))"
proof -
  let ?parsed = "fst (parse_booking_intent_clk clk t msg)"
  let ?t1 = "snd (parse_booking_intent_clk clk t msg)"
  show ?thesis
  proof (cases "intent.service ?parsed")
    case None
    then show ?thesis
      by (simp add: process_booking_request_clk_def Let_def)
  next
    case (Some svc)
    show ?thesis
    proof (cases "svc = []")
      case True
      with Some show ?thesis
        by (simp add: process_booking_request_clk_def Let_def)
    next
      case False
      show ?thesis
      proof (cases "find_available_slots a svc (date_preference ?parsed)")
        case Nil
        with Some False show ?thesis
          by (simp add: process_booking_request_clk_def Let_def)
      next
        case (Cons slot rest)
        from find_available_slots_head [OF Cons] obtain info
          where free: "\<not> is_slot_booked a slot" and info: "map_of services svc = Some info"
          by blast
        from create_appointment_clk_known [OF info, of clk ?t1 a uid slot] obtain ap
          where c: "create_appointment_clk clk ?t1 a uid svc slot =
            ((Inr ap,
              \<lparr>appointments = AList.update (apt_id (next_appointment_id a)) ap (appointments a),
               available_slots = filter (\<lambda>s. s \<noteq> slot) (available_slots a),
               next_appointment_id = next_appointment_id a + 1\<rparr>), ?t1 + 2)"
            and ap: "scheduled_time ap = slot"
          by blast
        have "snd (fst (process_booking_request_clk clk t a uid msg)) =
            \<lparr>appointments = AList.update (apt_id (next_appointment_id a)) ap (appointments a),
              available_slots = filter (\<lambda>s. s \<noteq> slot) (available_slots a),
              next_appointment_id = next_appointment_id a + 1\<rparr>"
          using Some False Cons info c
          by (simp add: process_booking_request_clk_def Let_def)
        with free ap show ?thesis by auto
      qed
    qed
  qed
qed

lemma reachable_snapshot_fresh: "reachable (init_agent now)"
  using reachable.fresh [of "\<lambda>_. now" 0] by (simp add: init_agent_clk_fixed)

lemma reachable_snapshot_request:
  "reachable a \<Longrightarrow> reachable (snd (process_booking_request now a uid msg))"
  using reachable.request [of a "\<lambda>_. now" 0 uid msg]
  by (simp add: process_booking_request_clk_fixed)

lemma reachable_sorted_slots: "reachable a \<Longrightarrow> sorted (available_slots a)"
proof (induction rule: reachable.induct)
  case (fresh clk t)
  show ?case
    by (simp add: init_agent_clk_def generate_weekly_slots_clk_def Let_def)
next
  case (request a clk t uid user_message)
  from process_clk_step_shape [of clk t a uid user_message] request.IH show ?case
    by (auto simp: sorted_wrt_filter)
qed

text \<open>
  C5, as the code has it. \<open>find_available_slots\<close> returns nothing for a service
  that is not in the catalog. For a catalog service and no date preference it returns the
  first six, in ascending order, of the slots that are not booked; in a state reached from
  a fresh agent the slot list is already ascending, so these are the first six unbooked
  slots in their original order.
\<close>

theorem find_available_slots_first_six:
  "(svc \<notin> set (map fst services) \<longrightarrow> find_available_slots a svc d = []) \<and>
   (svc \<in> set (map fst services) \<longrightarrow>
      find_available_slots a svc None =
        take 6 (sort (filter (\<lambda>slot. \<not> is_slot_booked a slot) (available_slots a))) \<and>
      (reachable a \<longrightarrow>
        find_available_slots a svc None =
          take 6 (filter (\<lambda>slot. \<not> is_slot_booked a slot) (available_slots a))))"
proof (intro conjI impI)
  assume "svc \<notin> set (map fst services)"
  then have "map_of services svc = None"
    by (meson map_of_services_iff option.exhaust)
  then show "find_available_slots a svc d = []"
    by (simp add: find_available_slots_def)
next
  assume "svc \<in> set (map fst services)"
  then obtain info where "map_of services svc = Some info"
    using map_of_services_iff by blast
  then show g: "find_available_slots a svc None =
        take 6 (sort (filter (\<lambda>slot. \<not> is_slot_booked a slot) (available_slots a)))"
    by (simp add: find_available_slots_def collect_available_def)
  assume "reachable a"
  then have "sorted (filter (\<lambda>slot. \<not> is_slot_booked a slot) (available_slots a))"
    by (simp add: reachable_sorted_slots sorted_wrt_filter)
  then have "sort (filter (\<lambda>slot. \<not> is_slot_booked a slot) (available_slots a)) =
      filter (\<lambda>slot. \<not> is_slot_booked a slot) (available_slots a)"
    by (rule sorted_sort_id)
  with g show "find_available_slots a svc None =
          take 6 (filter (\<lambda>slot. \<not> is_slot_booked a slot) (available_slots a))"
    by simp
qed

text \<open>
  A fresh agent, a catalog service and a name outside the catalog.
\<close>

theorem find_available_slots_first_six_witness:
  "''doctor'' \<in> set (map fst services) \<and> reachable (init_agent wednesday) \<and>
   find_available_slots (init_agent wednesday) ''doctor'' None =
     take 6 (filter (\<lambda>slot. \<not> is_slot_booked (init_agent wednesday) slot)
       (available_slots (init_agent wednesday))) \<and>
   ''plumber'' \<notin> set (map fst services) \<and>
   find_available_slots (init_agent wednesday) ''plumber'' None = []"
proof -
  have "''doctor'' \<in> set (map fst services)" and "''plumber'' \<notin> set (map fst services)"
    by (simp_all add: services_def)
  moreover have "reachable (init_agent wednesday)" by (rule reachable_snapshot_fresh)
  ultimately show ?thesis
    using find_available_slots_first_six [of "''doctor''" "init_agent wednesday" None]
      find_available_slots_first_six [of "''plumber''" "init_agent wednesday" None]
    by blast
qed

text \<open>
  C5 as stated fails: a fresh agent on Wednesday has 75 unbooked slots, and the query
  returns six of them.
\<close>

theorem available_slots_truncated_counterexample:
  "find_available_slots (init_agent wednesday) ''doctor'' None \<noteq>
     filter (Not \<circ> is_slot_booked (init_agent wednesday)) (available_slots (init_agent wednesday)) \<and>
   length (find_available_slots (init_agent wednesday) ''doctor'' None) = 6 \<and>
   length (filter (Not \<circ> is_slot_booked (init_agent wednesday))
     (available_slots (init_agent wednesday))) = 75"
  by code_simp

subsection \<open>One booking per slot\<close>

lemma update_keeps_one_per_slot:
  assumes inv: "\<forall>k1 k2 a1 a2. k1 \<noteq> k2 \<longrightarrow> map_of al k1 = Some a1 \<longrightarrow> map_of al k2 = Some a2 \<longrightarrow>
      status a1 \<noteq> CANCELLED \<longrightarrow> status a2 \<noteq> CANCELLED \<longrightarrow> scheduled_time a1 \<noteq> scheduled_time a2"
    and free: "\<forall>(k', a') \<in> set al. \<not> (scheduled_time a' = scheduled_time ap \<and> status a' \<noteq> CANCELLED)"
  shows "\<forall>k1 k2 a1 a2. k1 \<noteq> k2 \<longrightarrow> map_of (AList.update k ap al) k1 = Some a1 \<longrightarrow>
      map_of (AList.update k ap al) k2 = Some a2 \<longrightarrow>
      status a1 \<noteq> CANCELLED \<longrightarrow> status a2 \<noteq> CANCELLED \<longrightarrow> scheduled_time a1 \<noteq> scheduled_time a2"
proof (intro allI impI)
  fix k1 k2 a1 a2
  assume ne: "k1 \<noteq> k2"
    and m1: "map_of (AList.update k ap al) k1 = Some a1"
    and m2: "map_of (AList.update k ap al) k2 = Some a2"
    and s1: "status a1 \<noteq> CANCELLED" and s2: "status a2 \<noteq> CANCELLED"
  have old: "scheduled_time b \<noteq> scheduled_time ap"
    if "map_of al kb = Some b" and "status b \<noteq> CANCELLED" for kb b
  proof -
    from that(1) have "(kb, b) \<in> set al" by (rule map_of_SomeD)
    with free that(2) show ?thesis by auto
  qed
  consider "k1 = k" | "k2 = k" | "k1 \<noteq> k" "k2 \<noteq> k" by blast
  then show "scheduled_time a1 \<noteq> scheduled_time a2"
  proof cases
    case 1
    with m1 ne m2 have "a1 = ap" and "map_of al k2 = Some a2"
      by (simp_all add: update_conv')
    with old [of k2 a2] s2 show ?thesis by auto
  next
    case 2
    with m1 ne m2 have "a2 = ap" and "map_of al k1 = Some a1"
      by (simp_all add: update_conv')
    with old [of k1 a1] s1 show ?thesis by auto
  next
    case 3
    with m1 m2 have "map_of al k1 = Some a1" and "map_of al k2 = Some a2"
      by (simp_all add: update_conv')
    with inv ne s1 s2 show ?thesis by blast
  qed
qed

lemma booking_keeps_invariant:
  assumes "\<not> is_slot_booked a (scheduled_time ap)"
    and "appointments a' = AList.update k ap (appointments a)"
    and "distinct (map fst (appointments a))"
    and "\<forall>k1 k2 a1 a2. k1 \<noteq> k2 \<longrightarrow> map_of (appointments a) k1 = Some a1 \<longrightarrow>
      map_of (appointments a) k2 = Some a2 \<longrightarrow>
      status a1 \<noteq> CANCELLED \<longrightarrow> status a2 \<noteq> CANCELLED \<longrightarrow> scheduled_time a1 \<noteq> scheduled_time a2"
  shows "distinct (map fst (appointments a')) \<and>
    (\<forall>k1 k2 a1 a2. k1 \<noteq> k2 \<longrightarrow> map_of (appointments a') k1 = Some a1 \<longrightarrow>
      map_of (appointments a') k2 = Some a2 \<longrightarrow>
      status a1 \<noteq> CANCELLED \<longrightarrow> status a2 \<noteq> CANCELLED \<longrightarrow> scheduled_time a1 \<noteq> scheduled_time a2)"
proof -
  have free: "\<forall>(k', a') \<in> set (appointments a).
      \<not> (scheduled_time a' = scheduled_time ap \<and> status a' \<noteq> CANCELLED)"
    using assms(1) unfolding is_slot_booked_iff by auto
  show ?thesis
    unfolding assms(2)
    using assms(3) update_keeps_one_per_slot [OF assms(4) free]
    by (simp add: distinct_update)
qed

lemma reachable_invariant:
  "reachable a \<Longrightarrow>
     distinct (map fst (appointments a)) \<and>
     (\<forall>k1 k2 a1 a2. k1 \<noteq> k2 \<longrightarrow> map_of (appointments a) k1 = Some a1 \<longrightarrow>
        map_of (appointments a) k2 = Some a2 \<longrightarrow>
        status a1 \<noteq> CANCELLED \<longrightarrow> status a2 \<noteq> CANCELLED \<longrightarrow>
        scheduled_time a1 \<noteq> scheduled_time a2)"
proof (induction rule: reachable.induct)
  case (fresh clk t)
  show ?case by (simp add: init_agent_clk_def Let_def)
next
  case (request a clk t uid user_message)
  from process_clk_step_shape [of clk t a uid user_message] show ?case
  proof
    assume "snd (fst (process_booking_request_clk clk t a uid user_message)) = a"
    with request.IH show ?thesis by simp
  next
    assume "\<exists>k ap. \<not> is_slot_booked a (scheduled_time ap) \<and>
      appointments (snd (fst (process_booking_request_clk clk t a uid user_message))) =
        AList.update k ap (appointments a) \<and>
      available_slots (snd (fst (process_booking_request_clk clk t a uid user_message))) =
        filter (\<lambda>s. s \<noteq> scheduled_time ap) (available_slots a)"
    then obtain k ap where "\<not> is_slot_booked a (scheduled_time ap)"
      and "appointments (snd (fst (process_booking_request_clk clk t a uid user_message))) =
        AList.update k ap (appointments a)"
      by blast
    with request.IH show ?thesis
      by (intro booking_keeps_invariant [where a = a and ap = ap and k = k]) auto
  qed
qed

text \<open>
  C1. In every state that calls of \<open>process_booking_request\<close> reach from a fresh
  agent, whatever the clock returns at each reading, two different stored appointments
  that are both not cancelled have different scheduled times.
\<close>

theorem one_booking_per_slot:
  assumes "reachable a"
  shows "\<forall>i j. i < length (appointments a) \<and> j < length (appointments a) \<and> i \<noteq> j \<and>
      status (snd (appointments a ! i)) \<noteq> CANCELLED \<and>
      status (snd (appointments a ! j)) \<noteq> CANCELLED \<longrightarrow>
      scheduled_time (snd (appointments a ! i)) \<noteq> scheduled_time (snd (appointments a ! j))"
proof (intro allI impI)
  fix i j
  assume h: "i < length (appointments a) \<and> j < length (appointments a) \<and> i \<noteq> j \<and>
      status (snd (appointments a ! i)) \<noteq> CANCELLED \<and>
      status (snd (appointments a ! j)) \<noteq> CANCELLED"
  from reachable_invariant [OF assms] have d: "distinct (map fst (appointments a))"
    and inv: "\<And>k1 k2 a1 a2. k1 \<noteq> k2 \<Longrightarrow> map_of (appointments a) k1 = Some a1 \<Longrightarrow>
        map_of (appointments a) k2 = Some a2 \<Longrightarrow>
        status a1 \<noteq> CANCELLED \<Longrightarrow> status a2 \<noteq> CANCELLED \<Longrightarrow>
        scheduled_time a1 \<noteq> scheduled_time a2"
    by blast+
  have look: "map_of (appointments a) (fst (appointments a ! n)) = Some (snd (appointments a ! n))"
    if "n < length (appointments a)" for n
  proof -
    from that have "appointments a ! n \<in> set (appointments a)" by (rule nth_mem)
    then have "(fst (appointments a ! n), snd (appointments a ! n)) \<in> set (appointments a)" by simp
    with d show ?thesis by (simp only: map_of_eq_Some_iff)
  qed
  from h d have "fst (appointments a ! i) \<noteq> fst (appointments a ! j)"
    by (metis distinct_conv_nth length_map nth_map)
  with inv look h show "scheduled_time (snd (appointments a ! i)) \<noteq> scheduled_time (snd (appointments a ! j))"
    by blast
qed

text \<open>
  Two requests on a fresh agent: two appointments, at different times.
\<close>

theorem one_booking_per_slot_witness:
  "reachable (snd (process_booking_request wednesday
      (snd (process_booking_request wednesday (init_agent wednesday) default_user default_request))
      ''ann'' ''a doctor, please'')) \<and>
   length (appointments (snd (process_booking_request wednesday
      (snd (process_booking_request wednesday (init_agent wednesday) default_user default_request))
      ''ann'' ''a doctor, please''))) = 2 \<and>
   scheduled_time (snd (appointments (snd (process_booking_request wednesday
      (snd (process_booking_request wednesday (init_agent wednesday) default_user default_request))
      ''ann'' ''a doctor, please'')) ! 0)) \<noteq>
   scheduled_time (snd (appointments (snd (process_booking_request wednesday
      (snd (process_booking_request wednesday (init_agent wednesday) default_user default_request))
      ''ann'' ''a doctor, please'')) ! 1))"
proof -
  let ?a = "snd (process_booking_request wednesday
      (snd (process_booking_request wednesday (init_agent wednesday) default_user default_request))
      ''ann'' ''a doctor, please'')"
  have r: "reachable ?a"
    by (intro reachable_snapshot_request reachable_snapshot_fresh)
  have l: "length (appointments ?a) = 2"
    by code_simp
  have s: "status (snd (appointments ?a ! 0)) \<noteq> CANCELLED \<and> status (snd (appointments ?a ! 1)) \<noteq> CANCELLED"
    by code_simp
  from one_booking_per_slot [OF r] l s
  have "scheduled_time (snd (appointments ?a ! 0)) \<noteq> scheduled_time (snd (appointments ?a ! 1))"
    by simp
  with r l show ?thesis by simp
qed

subsection \<open>The default request\<close>















end
